theory Spec2Isabelle
  imports Complex_Main "HOL-Library.List_Lexorder" "HOL-Library.Char_ord"
begin

section \<open>Python values and dictionaries\<close>

text \<open>
  The evaluation script \<^verbatim>\<open>scripts/hvf_eval.py\<close> folds a stream of samples into a metrics
  artifact; \<^verbatim>\<open>scripts/render_hvf_tables.py\<close> derives the per-SNR table from the artifact.
  Labels and predictions are Python \<^verbatim>\<open>str\<close>, modelled as \<open>string\<close> (the byte order of UTF-8
  is the code point order Python compares by). Python floats are modelled as \<open>real\<close>:
  rounding, infinities and NaN are outside the model.
\<close>

datatype py_exn = TypeError | OverflowError | KeyError | ClassifierError string

text \<open>
  The values the classifier may leave in \<^verbatim>\<open>sig.metadata\<close> under the keys that are read
  through \<^verbatim>\<open>bool(...)\<close> and \<^verbatim>\<open>float(...)\<close>: \<^verbatim>\<open>None\<close>, a bool, an int or a float.
  (String values are not modelled.)
\<close>

datatype pyval = PyNone | PyBool bool | PyInt int | PyFloat real

fun py_bool :: "pyval \<Rightarrow> bool" where
  "py_bool PyNone = False"
| "py_bool (PyBool b) = b"
| "py_bool (PyInt i) = (i \<noteq> 0)"
| "py_bool (PyFloat r) = (r \<noteq> 0)"

text \<open>
  \<^verbatim>\<open>float(v)\<close>: \<^verbatim>\<open>float(None)\<close> raises \<^verbatim>\<open>TypeError\<close>, and an int is converted only
  when it rounds to a double: from \<open>2 ^ 1024 - 2 ^ 970\<close> on (half an ulp above the largest
  double) \<^verbatim>\<open>float\<close> raises \<^verbatim>\<open>OverflowError\<close>.
\<close>

fun py_float :: "pyval \<Rightarrow> py_exn + real" where
  "py_float PyNone = Inl TypeError"
| "py_float (PyBool b) = Inr (if b then 1 else 0)"
| "py_float (PyInt i) = (if \<bar>i\<bar> < 2 ^ 1024 - 2 ^ 970 then Inr (of_int i) else Inl OverflowError)"
| "py_float (PyFloat r) = Inr r"

text \<open>\<^verbatim>\<open>int(x)\<close> on a float: truncation towards zero.\<close>

definition py_int :: "real \<Rightarrow> int" where
  "py_int x = (if 0 \<le> x then \<lfloor>x\<rfloor> else \<lceil>x\<rceil>)"

text \<open>
  A Python \<^verbatim>\<open>dict\<close> is an association list in insertion order with one pair per key.
  \<open>upsert k v0 f d\<close> is \<^verbatim>\<open>d.setdefault(k, v0)\<close> followed by the in-place update
  \<^verbatim>\<open>d[k] = f(d[k])\<close>: a new key goes to the end, an old key keeps its place.
\<close>

fun upsert :: "'k \<Rightarrow> 'v \<Rightarrow> ('v \<Rightarrow> 'v) \<Rightarrow> ('k \<times> 'v) list \<Rightarrow> ('k \<times> 'v) list" where
  "upsert k v0 f [] = [(k, f v0)]"
| "upsert k v0 f ((k', v) # d) =
     (if k' = k then (k', f v) # d else (k', v) # upsert k v0 f d)"

section \<open>The evaluation loop of \<^verbatim>\<open>run_eval\<close>\<close>

text \<open>
  \<^verbatim>\<open>sig.metadata\<close> after \<^verbatim>\<open>clf.classify_signal(sig)\<close>: a field is \<open>None\<close> when the key is
  absent from the dict.
\<close>

record metadata =
  used_specialized :: "pyval option"
  base_pred :: "string option"
  lat_base_ms :: "pyval option"
  lat_total_ms :: "pyval option"

text \<open>
  The classifier is an external collaborator. What \<^verbatim>\<open>clf.classify_signal(sig)\<close> does on a
  sample is part of the sample: it raises, or it returns \<^verbatim>\<open>(yhat_h, conf_h, _)\<close> and leaves
  the metadata. The IQ data is only handed to the classifier and is not kept.
\<close>

datatype clf_result = Raises py_exn | Returns string metadata

record sample =
  true_label :: string
  outcome :: clf_result

record tally =
  flat_correct :: nat
  hier_correct :: nat
  hier_wins :: nat
  flat_wins :: nat
  ties :: nat

definition new_tally :: tally where
  "new_tally = \<lparr>flat_correct = 0, hier_correct = 0, hier_wins = 0, flat_wins = 0, ties = 0\<rparr>"

text \<open>The five \<^verbatim>\<open>if\<close> statements of lines 155--164, in order.\<close>

definition tally_wins :: "string \<Rightarrow> string \<Rightarrow> string \<Rightarrow> tally \<Rightarrow> tally" where
  "tally_wins lbl yhat_f yhat_h t0 =
     (let t1 = (if yhat_f = lbl then t0\<lparr>flat_correct := flat_correct t0 + 1\<rparr> else t0);
          t2 = (if yhat_h = lbl then t1\<lparr>hier_correct := hier_correct t1 + 1\<rparr> else t1);
          t3 = (if yhat_h = lbl \<and> yhat_f \<noteq> lbl then t2\<lparr>hier_wins := hier_wins t2 + 1\<rparr> else t2);
          t4 = (if yhat_f = lbl \<and> yhat_h \<noteq> lbl then t3\<lparr>flat_wins := flat_wins t3 + 1\<rparr> else t3);
          t5 = (if yhat_f = lbl \<and> yhat_h = lbl then t4\<lparr>ties := ties t4 + 1\<rparr> else t4)
      in t5)"

type_synonym confusion = "(string \<times> (string \<times> nat) list) list"

text \<open>\<^verbatim>\<open>bump(mat, y, yhat)\<close>, lines 121--124.\<close>

definition bump :: "confusion \<Rightarrow> string \<Rightarrow> string \<Rightarrow> confusion" where
  "bump mat y yhat = upsert y [] (upsert yhat 0 Suc) mat"

text \<open>
  The local variables of \<^verbatim>\<open>run_eval\<close>; \<open>log\<close> holds the lines printed by the exception
  handler, each with the sample number it prints.
\<close>

record eval_state =
  n_samples :: nat
  per_class :: "(string \<times> tally) list"
  lat_flat :: "real list"
  lat_hier :: "real list"
  conf_mat_flat :: confusion
  conf_mat_hier :: confusion
  log :: "(nat \<times> py_exn) list"

definition init_state :: eval_state where
  "init_state = \<lparr>n_samples = 0, per_class = [], lat_flat = [], lat_hier = [],
     conf_mat_flat = [], conf_mat_hier = [], log = []\<rparr>"

text \<open>Lines 137, 140, 143 and 144: \<^verbatim>\<open>metadata.get(key, default)\<close>.\<close>

definition get_used_spec :: "metadata \<Rightarrow> bool" where
  "get_used_spec m = py_bool (case used_specialized m of None \<Rightarrow> PyBool False | Some v \<Rightarrow> v)"

definition get_base_pred :: "metadata \<Rightarrow> string \<Rightarrow> string" where
  "get_base_pred m yhat_h = (case base_pred m of None \<Rightarrow> yhat_h | Some p \<Rightarrow> p)"

definition get_lat :: "pyval option \<Rightarrow> py_exn + real" where
  "get_lat field = py_float (case field of None \<Rightarrow> PyFloat 0 | Some v \<Rightarrow> v)"

text \<open>
  The body of the \<^verbatim>\<open>try\<close> (lines 133--167). It returns the state as far as it was updated
  and the exception that ended it, if any.
\<close>

definition try_body :: "sample \<Rightarrow> eval_state \<Rightarrow> eval_state \<times> py_exn option" where
  "try_body s st =
     (case outcome s of
        Raises e \<Rightarrow> (st, Some e)
      | Returns yhat_h m \<Rightarrow>
          (let used_spec = get_used_spec m;
               yhat_f = get_base_pred m yhat_h
           in case get_lat (lat_base_ms m) of
                Inl e \<Rightarrow> (st, Some e)
              | Inr lf \<Rightarrow>
                  (let st1 = st\<lparr>lat_flat := lat_flat st @ [lf]\<rparr>
                   in case get_lat (lat_total_ms m) of
                        Inl e \<Rightarrow> (st1, Some e)
                      | Inr lh \<Rightarrow>
                          (st1\<lparr>lat_hier := lat_hier st1 @ [lh],
                               per_class := upsert (true_label s) new_tally
                                 (tally_wins (true_label s) yhat_f yhat_h) (per_class st1),
                               conf_mat_flat := bump (conf_mat_flat st1) (true_label s) yhat_f,
                               conf_mat_hier := bump (conf_mat_hier st1) (true_label s) yhat_h\<rparr>,
                           None))))"

text \<open>
  One iteration after the limit check: \<^verbatim>\<open>n += 1\<close>, the \<^verbatim>\<open>try\<close>, and the handler that
  prints \<^verbatim>\<open>Error processing sample {n}\<close> and continues.
\<close>

definition process_sample :: "eval_state \<Rightarrow> sample \<Rightarrow> eval_state" where
  "process_sample st s =
     (let st0 = st\<lparr>n_samples := n_samples st + 1\<rparr>
      in case try_body s st0 of
           (st', None) \<Rightarrow> st'
         | (st', Some e) \<Rightarrow> st'\<lparr>log := log st' @ [(n_samples st', e)]\<rparr>)"

text \<open>The \<^verbatim>\<open>for\<close> loop, lines 127--171; \<^verbatim>\<open>limit\<close> is a Python int.\<close>

fun eval_loop :: "int \<Rightarrow> sample list \<Rightarrow> eval_state \<Rightarrow> eval_state" where
  "eval_loop limit [] st = st"
| "eval_loop limit (s # rest) st =
     (if limit \<noteq> 0 \<and> int (n_samples st) \<ge> limit then st
      else eval_loop limit rest (process_sample st s))"

section \<open>Percentiles and the artifact\<close>

text \<open>
  Modelled from the spec: \<^verbatim>\<open>numpy.percentile\<close> is a library function and not under the
  sources; the spec calls it the standard linear-interpolation percentile. For the sorted
  data \<open>s\<close> of length \<open>n\<close> the virtual index is \<open>(n - 1) * q / 100\<close>, and the result
  interpolates between the two neighbours of that index. There is no result for empty data
  or for \<open>q\<close> outside \<open>[0, 100]\<close>.
\<close>

definition np_percentile :: "real list \<Rightarrow> real \<Rightarrow> real option" where
  "np_percentile a q =
     (if a = [] \<or> q < 0 \<or> 100 < q then None
      else let s = sort a;
               v = real (length s - 1) * q / 100;
               lo = nat \<lfloor>v\<rfloor>;
               hi = min (lo + 1) (length s - 1);
               g = v - real lo
           in Some (s ! lo + (s ! hi - s ! lo) * g))"

text \<open>\<^verbatim>\<open>float(np.percentile(lat, q)) if lat else 0.0\<close>\<close>

definition pct_or_zero :: "real list \<Rightarrow> real \<Rightarrow> real option" where
  "pct_or_zero lat q = (if lat \<noteq> [] then np_percentile lat q else Some 0)"

record latency =
  p50 :: real
  p95 :: real

text \<open>
  The output dict. A row \<^verbatim>\<open>{"label": k, **v}\<close> of \<^verbatim>\<open>per_class\<close> is the pair of the label
  and the tally.
\<close>

record artifact =
  art_n :: nat
  art_per_class :: "(string \<times> tally) list"
  latency_flat :: latency
  latency_hier :: latency
  confusion_flat :: confusion
  confusion_hier :: confusion

text \<open>
  Lines 174--190. \<^verbatim>\<open>sorted(per_class.items())\<close> compares the pairs by key; the keys of a
  dict are distinct, so the values are never compared.
\<close>

definition finalize :: "eval_state \<Rightarrow> artifact option" where
  "finalize st =
     (case (pct_or_zero (lat_flat st) 50, pct_or_zero (lat_flat st) 95,
            pct_or_zero (lat_hier st) 50, pct_or_zero (lat_hier st) 95) of
        (Some f50, Some f95, Some h50, Some h95) \<Rightarrow>
          Some \<lparr>art_n = n_samples st,
                art_per_class = sort_key fst (per_class st),
                latency_flat = \<lparr>p50 = f50, p95 = f95\<rparr>,
                latency_hier = \<lparr>p50 = h50, p95 = h95\<rparr>,
                confusion_flat = conf_mat_flat st,
                confusion_hier = conf_mat_hier st\<rparr>
      | _ \<Rightarrow> None)"

text \<open>
  \<^verbatim>\<open>create_mock_results\<close> (lines 192--234) draws random numbers. The draws are a
  parameter. \<^verbatim>\<open>np.random.uniform(low, high)\<close> scales a draw from \<open>[0, 1)\<close>; any real \<open>u\<close>
  stands for the unit draw \<open>frac u\<close>, so that every value of the parameter is a draw the
  generator can make. \<open>u_flat rng i\<close> and \<open>u_hier rng i\<close> are the unit draws behind
  \<^verbatim>\<open>np.random.uniform(0.6, 0.8)\<close> and \<^verbatim>\<open>np.random.uniform(0.7, 0.9)\<close> for the \<open>i\<close>-th
  modulation type; \<open>gamma_base rng i\<close> and \<open>gamma_extra rng i\<close> are the \<open>i\<close>-th elements of
  the arrays \<^verbatim>\<open>np.random.gamma(2, 2, n_samples)\<close> and \<^verbatim>\<open>np.random.gamma(1.5, 1, n_samples)\<close>.
\<close>

definition np_uniform :: "real \<Rightarrow> real \<Rightarrow> real \<Rightarrow> real" where
  "np_uniform low high u = low + (high - low) * frac u"

record mock_draws =
  u_flat :: "nat \<Rightarrow> real"
  u_hier :: "nat \<Rightarrow> real"
  gamma_base :: "nat \<Rightarrow> real"
  gamma_extra :: "nat \<Rightarrow> real"

definition modulation_types :: "string list" where
  "modulation_types = [''BPSK'', ''QPSK'', ''8PSK'', ''16QAM'', ''64QAM'', ''FM'']"

text \<open>
  The body of the loop of lines 197--213 for the \<open>i\<close>-th modulation type. The counts
  are not negative when \<open>num_samples\<close> is not, and only then an artifact is returned.
\<close>

definition mock_row :: "mock_draws \<Rightarrow> int \<Rightarrow> nat \<times> string \<Rightarrow> string \<times> tally" where
  "mock_row rng num_samples im =
     (let n_samples_class = num_samples div int (length modulation_types);
          fc = py_int (of_int n_samples_class * np_uniform (6 / 10) (8 / 10) (u_flat rng (fst im)));
          hc = py_int (of_int n_samples_class * np_uniform (7 / 10) (9 / 10) (u_hier rng (fst im)));
          hw = max 0 (hc - fc);
          fw = max 0 (fc - hc);
          ti = min fc hc
      in (snd im,
          \<lparr>flat_correct = nat fc, hier_correct = nat hc, hier_wins = nat hw,
           flat_wins = nat fw, ties = nat ti\<rparr>))"

text \<open>
  \<^verbatim>\<open>create_mock_results(n_samples)\<close>; \<open>num_samples\<close> is its argument. The rows are in
  the order of \<^verbatim>\<open>modulation_types\<close> and are not sorted; the percentiles are taken
  without a guard. \<open>None\<close>: no artifact with numbers is returned, because
  \<^verbatim>\<open>np.random.gamma\<close> raises on a negative size or the latency arrays are empty.
\<close>

definition create_mock_results :: "mock_draws \<Rightarrow> int \<Rightarrow> artifact option" where
  "create_mock_results rng num_samples =
     (if num_samples < 0 then None
      else
        let rows = map (mock_row rng num_samples) (enumerate 0 modulation_types);
            flat_latencies = map (gamma_base rng) [0..<nat num_samples];
            hier_latencies = map (\<lambda>i. gamma_base rng i + gamma_extra rng i) [0..<nat num_samples]
        in case (np_percentile flat_latencies 50, np_percentile flat_latencies 95,
                 np_percentile hier_latencies 50, np_percentile hier_latencies 95) of
             (Some f50, Some f95, Some h50, Some h95) \<Rightarrow>
               Some \<lparr>art_n = nat num_samples,
                     art_per_class = rows,
                     latency_flat = \<lparr>p50 = f50, p95 = f95\<rparr>,
                     latency_hier = \<lparr>p50 = h50, p95 = h95\<rparr>,
                     confusion_flat = map (\<lambda>m. (m, [(m, 10), (''other'', 2)])) modulation_types,
                     confusion_hier = map (\<lambda>m. (m, [(m, 12), (''other'', 1)])) modulation_types\<rparr>
           | _ \<Rightarrow> None)"

text \<open>
  What lines 97--105 find: \<^verbatim>\<open>HierarchicalMLClassifier\<close> is \<^verbatim>\<open>None\<close>, its constructor
  raises, or the classifier is constructed.
\<close>

datatype clf_status = Unavailable | ConstructorRaises py_exn | Constructed

text \<open>
  \<^verbatim>\<open>run_eval(models_cfg, limit)\<close>. Without a classifier it returns the mock results
  (lines 97--105); with one it runs the loop on the samples the data iterator yields and
  builds the artifact (lines 115--190). \<open>None\<close>: no artifact with numbers is returned (an
  exception leaves \<^verbatim>\<open>run_eval\<close>, or a percentile is not a number).
\<close>

definition run_eval :: "mock_draws \<Rightarrow> clf_status \<Rightarrow> int \<Rightarrow> sample list \<Rightarrow> artifact option" where
  "run_eval rng clf limit data_iterator =
     (case clf of
        Unavailable \<Rightarrow> create_mock_results rng limit
      | ConstructorRaises e \<Rightarrow> create_mock_results rng limit
      | Constructed \<Rightarrow> finalize (eval_loop limit data_iterator init_state))"

section \<open>The SNR table of the renderer\<close>

text \<open>
  A row of the optional \<^verbatim>\<open>"records"\<close> list of the artifact. \<open>rec_snr_db\<close> is \<open>None\<close>
  when the row has no key \<^verbatim>\<open>snr_db\<close>; the two correctness flags are JSON booleans.
\<close>

record snr_record =
  rec_snr_db :: "real option"
  rec_flat_correct :: bool
  rec_hier_correct :: bool

text \<open>Python's \<^verbatim>\<open>round\<close> on a float: to the nearest integer, a tie to the even one.\<close>

definition py_round :: "real \<Rightarrow> int" where
  "py_round x =
     (let f = \<lfloor>x\<rfloor>; d = x - of_int f
      in if d < 1/2 then f else if 1/2 < d then f + 1 else if even f then f else f + 1)"

text \<open>\<^verbatim>\<open>int(round(r['snr_db']))\<close>: the subscript raises \<^verbatim>\<open>KeyError\<close> on a missing key.\<close>

definition snr_key :: "snr_record \<Rightarrow> py_exn + int" where
  "snr_key r = (case rec_snr_db r of None \<Rightarrow> Inl KeyError | Some x \<Rightarrow> Inr (py_round x))"

text \<open>
  The keys of all records, as the set comprehension of line 49 computes them first; the
  first missing \<^verbatim>\<open>snr_db\<close> ends it.
\<close>

fun snr_keys :: "snr_record list \<Rightarrow> py_exn + int list" where
  "snr_keys [] = Inr []"
| "snr_keys (r # rs) =
     (case snr_key r of
        Inl e \<Rightarrow> Inl e
      | Inr k \<Rightarrow> (case snr_keys rs of Inl e \<Rightarrow> Inl e | Inr ks \<Rightarrow> Inr (k # ks)))"

record snr_bucket =
  snr :: int
  b_flat_wins :: nat
  b_hier_wins :: nat
  adv :: int
  b_n :: nat

text \<open>
  One entry of \<^verbatim>\<open>snr_dict\<close> (lines 46--48) with \<^verbatim>\<open>adv\<close> added (lines 51--52); \<open>krs\<close>
  pairs every record with its key.
\<close>

definition mk_bucket :: "(int \<times> snr_record) list \<Rightarrow> int \<Rightarrow> snr_bucket" where
  "mk_bucket krs k =
     (let fw = sum_list (map (\<lambda>(k', r). of_bool (rec_flat_correct r \<and> \<not> rec_hier_correct r))
                 (filter (\<lambda>(k', r). k' = k) krs));
          hw = sum_list (map (\<lambda>(k', r). of_bool (rec_hier_correct r \<and> \<not> rec_flat_correct r))
                 (filter (\<lambda>(k', r). k' = k) krs));
          N = sum_list (map (\<lambda>(k', r). 1) (filter (\<lambda>(k', r). k' = k) krs))
      in \<lparr>snr = k, b_flat_wins = fw, b_hier_wins = hw, adv = int hw - int fw, b_n = N\<rparr>)"

text \<open>
  Lines 43--53: \<^verbatim>\<open>snr_data\<close> for \<^verbatim>\<open>data.get("records")\<close>. A missing or empty list leaves
  \<^verbatim>\<open>snr_data = []\<close>. The keys of the dict are the distinct rounded values, and
  \<^verbatim>\<open>sorted(snr_dict.items())\<close> puts them in ascending order. The code is outside any
  \<^verbatim>\<open>try\<close>, so \<open>Inl\<close> is an exception leaving \<^verbatim>\<open>main\<close>.
\<close>

definition snr_table :: "snr_record list option \<Rightarrow> py_exn + snr_bucket list" where
  "snr_table records =
     (case records of
        None \<Rightarrow> Inr []
      | Some [] \<Rightarrow> Inr []
      | Some rs \<Rightarrow>
          (case snr_keys rs of
             Inl e \<Rightarrow> Inl e
           | Inr ks \<Rightarrow> Inr (map (mk_bucket (zip ks rs)) (sort (remdups ks)))))"

section \<open>Notions the properties are stated with\<close>

text \<open>
  A latency field that \<^verbatim>\<open>float\<close> converts: the key is absent, or the value is a bool, a
  float, or an int inside the range of a double.
\<close>

fun convertible :: "pyval option \<Rightarrow> bool" where
  "convertible None = True"
| "convertible (Some PyNone) = False"
| "convertible (Some (PyBool b)) = True"
| "convertible (Some (PyInt i)) = (\<bar>i\<bar> < 2 ^ 1024 - 2 ^ 970)"
| "convertible (Some (PyFloat r)) = True"

text \<open>The samples the loop takes from the source before the limit check stops it.\<close>

definition consumed :: "int \<Rightarrow> sample list \<Rightarrow> sample list" where
  "consumed limit src = (if limit = 0 then src else take (nat limit) src)"

text \<open>
  The result \<open>(true label, flat prediction, hierarchical prediction)\<close> of a sample whose
  \<^verbatim>\<open>try\<close> body runs to its end, and the exception of a sample whose body does not.
\<close>

definition sample_result :: "sample \<Rightarrow> (string \<times> string \<times> string) option" where
  "sample_result s =
     (case outcome s of
        Raises e \<Rightarrow> None
      | Returns yhat_h m \<Rightarrow>
          (case (get_lat (lat_base_ms m), get_lat (lat_total_ms m)) of
             (Inr lf, Inr lh) \<Rightarrow> Some (true_label s, get_base_pred m yhat_h, yhat_h)
           | _ \<Rightarrow> None))"

definition sample_exn :: "sample \<Rightarrow> py_exn option" where
  "sample_exn s =
     (case outcome s of
        Raises e \<Rightarrow> Some e
      | Returns yhat_h m \<Rightarrow>
          (case get_lat (lat_base_ms m) of
             Inl e \<Rightarrow> Some e
           | Inr lf \<Rightarrow> (case get_lat (lat_total_ms m) of Inl e \<Rightarrow> Some e | Inr lh \<Rightarrow> None)))"

definition results :: "sample list \<Rightarrow> (string \<times> string \<times> string) list" where
  "results xs = List.map_filter sample_result xs"

text \<open>How many results have the true label \<open>l\<close> and satisfy \<open>P flat hier\<close>.\<close>

definition count_where ::
  "string \<Rightarrow> (string \<Rightarrow> string \<Rightarrow> bool) \<Rightarrow> (string \<times> string \<times> string) list \<Rightarrow> nat" where
  "count_where l P rs = length (filter (\<lambda>(t, f, h). t = l \<and> P f h) rs)"

definition total_for :: "string \<Rightarrow> (string \<times> string \<times> string) list \<Rightarrow> nat" where
  "total_for l rs = count_where l (\<lambda>f h. True) rs"

text \<open>The sum of a row of a confusion matrix, \<^verbatim>\<open>sum(mat[y].values())\<close>; 0 without the row.\<close>

definition row_sum :: "confusion \<Rightarrow> string \<Rightarrow> nat" where
  "row_sum mat y = (case map_of mat y of None \<Rightarrow> 0 | Some row \<Rightarrow> sum_list (map snd row))"

text \<open>The entry \<^verbatim>\<open>mat[y][yhat]\<close>, if the matrix has it.\<close>

definition entry :: "confusion \<Rightarrow> string \<Rightarrow> string \<Rightarrow> nat option" where
  "entry mat y yhat = (case map_of mat y of None \<Rightarrow> None | Some row \<Rightarrow> map_of row yhat)"

text \<open>The tally the results give for the label \<open>l\<close>, counter by counter.\<close>

definition tally_of :: "string \<Rightarrow> (string \<times> string \<times> string) list \<Rightarrow> tally" where
  "tally_of l rs =
     \<lparr>flat_correct = count_where l (\<lambda>f h. f = l) rs,
      hier_correct = count_where l (\<lambda>f h. h = l) rs,
      hier_wins = count_where l (\<lambda>f h. h = l \<and> f \<noteq> l) rs,
      flat_wins = count_where l (\<lambda>f h. f = l \<and> h \<noteq> l) rs,
      ties = count_where l (\<lambda>f h. f = l \<and> h = l) rs\<rparr>"

text \<open>
  The samples whose \<^verbatim>\<open>try\<close> body raises, each with its position in the sequence counted
  from 1 and its exception.
\<close>

definition failures :: "sample list \<Rightarrow> (nat \<times> py_exn) list" where
  "failures xs =
     List.map_filter (\<lambda>(i, s). map_option (Pair (Suc i)) (sample_exn s)) (enumerate 0 xs)"

section \<open>Example inputs\<close>

text \<open>
  A sample on which the classifier returns \<open>h\<close> and leaves the baseline prediction \<open>f\<close>
  and two latencies, and a sample on which the classifier raises.
\<close>

definition returning :: "string \<Rightarrow> string \<Rightarrow> string \<Rightarrow> sample" where
  "returning t f h =
     \<lparr>true_label = t,
      outcome = Returns h \<lparr>used_specialized = None, base_pred = Some f,
        lat_base_ms = Some (PyFloat 1), lat_total_ms = Some (PyInt 2)\<rparr>\<rparr>"

definition raising :: "string \<Rightarrow> sample" where
  "raising t = \<lparr>true_label = t, outcome = Raises (ClassifierError ''boom'')\<rparr>"

text \<open>
  A sample on which the classifier returns \<open>h\<close> and leaves no metadata at all, and one
  where it leaves \<^verbatim>\<open>lat_base_ms = None\<close>.
\<close>

definition bare :: "string \<Rightarrow> string \<Rightarrow> sample" where
  "bare t h =
     \<lparr>true_label = t,
      outcome = Returns h \<lparr>used_specialized = None, base_pred = None,
        lat_base_ms = None, lat_total_ms = None\<rparr>\<rparr>"

definition malformed :: "string \<Rightarrow> string \<Rightarrow> sample" where
  "malformed t h =
     \<lparr>true_label = t,
      outcome = Returns h \<lparr>used_specialized = None, base_pred = None,
        lat_base_ms = Some PyNone, lat_total_ms = None\<rparr>\<rparr>"

text \<open>A sample with a latency too large for a double, and draws for the mock results.\<close>

definition oversized :: "string \<Rightarrow> string \<Rightarrow> sample" where
  "oversized t h =
     \<lparr>true_label = t,
      outcome = Returns h \<lparr>used_specialized = None, base_pred = None,
        lat_base_ms = Some (PyInt (10 ^ 309)), lat_total_ms = None\<rparr>\<rparr>"

definition fixed_draws :: mock_draws where
  "fixed_draws =
     \<lparr>u_flat = (\<lambda>i. 1 / 2), u_hier = (\<lambda>i. 1 / 2),
      gamma_base = (\<lambda>i. 1), gamma_extra = (\<lambda>i. 1)\<rparr>"

text \<open>Rows of a \<^verbatim>\<open>"records"\<close> list; the third has no \<^verbatim>\<open>snr_db\<close>.\<close>

definition rec1 :: snr_record where
  "rec1 = \<lparr>rec_snr_db = Some (5 / 2), rec_flat_correct = False, rec_hier_correct = True\<rparr>"

definition rec2 :: snr_record where
  "rec2 = \<lparr>rec_snr_db = Some (- (3 / 2)), rec_flat_correct = True, rec_hier_correct = False\<rparr>"

definition rec3 :: snr_record where
  "rec3 = \<lparr>rec_snr_db = None, rec_flat_correct = False, rec_hier_correct = True\<rparr>"

section \<open>The loop as a fold\<close>

text \<open>
  The properties of the evaluation loop are about \<open>run_eval rng Constructed\<close>, the run
  with a classifier; the draws \<open>rng\<close> play no part in it.
\<close>

lemma n_process_sample: "n_samples (process_sample st s) = n_samples st + 1"
  by (auto simp: process_sample_def try_body_def Let_def split: clf_result.splits sum.splits)

lemma eval_loop_foldl:
  "eval_loop limit src st =
     foldl process_sample st
       (if limit = 0 then src else take (nat (limit - int (n_samples st))) src)"
proof (induction src arbitrary: st)
  case Nil
  then show ?case by simp
next
  case (Cons s rest)
  show ?case
  proof (cases "limit \<noteq> 0 \<and> int (n_samples st) \<ge> limit")
    case True
    then show ?thesis by simp
  next
    case False
    then have "limit = 0 \<or> 0 < limit - int (n_samples st)" by auto
    then show ?thesis
    proof
      assume "limit = 0"
      then show ?thesis using Cons.IH by simp
    next
      assume pos: "0 < limit - int (n_samples st)"
      then have lim: "limit \<noteq> 0" by auto
      from pos obtain k where k: "nat (limit - int (n_samples st)) = Suc k"
        by (cases "nat (limit - int (n_samples st))") auto
      have k': "nat (limit - int (n_samples (process_sample st s))) = k"
        using k by (simp add: n_process_sample)
      show ?thesis using False lim k k' Cons.IH [of "process_sample st s"] by simp
    qed
  qed
qed

lemma eval_loop_init:
  "eval_loop limit src init_state = foldl process_sample init_state (consumed limit src)"
  by (simp add: eval_loop_foldl consumed_def init_state_def)

lemma per_class_process:
  "per_class (process_sample st s) =
     (case sample_result s of
        None \<Rightarrow> per_class st
      | Some (l, f, h) \<Rightarrow> upsert l new_tally (tally_wins l f h) (per_class st))"
  by (auto simp: process_sample_def try_body_def sample_result_def Let_def
      split: clf_result.splits sum.splits)

lemma conf_flat_process:
  "conf_mat_flat (process_sample st s) =
     (case sample_result s of
        None \<Rightarrow> conf_mat_flat st
      | Some (l, f, h) \<Rightarrow> bump (conf_mat_flat st) l f)"
  by (auto simp: process_sample_def try_body_def sample_result_def Let_def
      split: clf_result.splits sum.splits)

lemma conf_hier_process:
  "conf_mat_hier (process_sample st s) =
     (case sample_result s of
        None \<Rightarrow> conf_mat_hier st
      | Some (l, f, h) \<Rightarrow> bump (conf_mat_hier st) l h)"
  by (auto simp: process_sample_def try_body_def sample_result_def Let_def
      split: clf_result.splits sum.splits)

lemma log_process:
  "log (process_sample st s) =
     (case sample_exn s of
        None \<Rightarrow> log st
      | Some e \<Rightarrow> log st @ [(n_samples st + 1, e)])"
  by (auto simp: process_sample_def try_body_def sample_exn_def Let_def
      split: clf_result.splits sum.splits)

lemma map_of_upsert:
  "map_of (upsert k v0 f d) l =
     (if l = k then Some (f (case map_of d k of None \<Rightarrow> v0 | Some v \<Rightarrow> v)) else map_of d l)"
  by (induction d) auto

lemma results_snoc:
  "results (xs @ [x]) = results xs @ (case sample_result x of None \<Rightarrow> [] | Some r \<Rightarrow> [r])"
  by (simp add: results_def List.map_filter_def split: option.splits)

lemma results_Nil: "results [] = []"
  by (simp add: results_def List.map_filter_def)

lemma count_where_snoc:
  "count_where l P (rs @ [(t, f, h)]) = count_where l P rs + (if t = l \<and> P f h then 1 else 0)"
  by (simp add: count_where_def)

lemma count_where_le_total: "count_where l P rs \<le> total_for l rs"
  unfolding count_where_def total_for_def
  by (induction rs) auto

lemma tally_wins_tally_of:
  "tally_wins l f h (tally_of l rs) = tally_of l (rs @ [(l, f, h)])"
  by (auto simp: tally_wins_def tally_of_def Let_def count_where_snoc)

lemma tally_of_other:
  "t \<noteq> l \<Longrightarrow> tally_of l (rs @ [(t, f, h)]) = tally_of l rs"
  by (simp add: tally_of_def count_where_snoc)

lemma tally_of_zero: "total_for l rs = 0 \<Longrightarrow> tally_of l rs = new_tally"
  using count_where_le_total [of l _ rs]
  by (simp add: tally_of_def new_tally_def)

lemma per_class_foldl:
  "map_of (per_class (foldl process_sample init_state xs)) l =
     (if total_for l (results xs) = 0 then None else Some (tally_of l (results xs)))"
proof (induction xs rule: rev_induct)
  case Nil
  then show ?case by (simp add: init_state_def results_Nil total_for_def count_where_def)
next
  case (snoc x xs)
  show ?case
  proof (cases "sample_result x")
    case None
    then show ?thesis using snoc by (simp add: per_class_process results_snoc)
  next
    case (Some r)
    obtain t f h where r: "r = (t, f, h)" by (cases r) auto
    show ?thesis
    proof (cases "t = l")
      case True
      have step: "map_of (per_class (foldl process_sample init_state (xs @ [x]))) l =
          Some (tally_wins l f h
            (case map_of (per_class (foldl process_sample init_state xs)) l of
               None \<Rightarrow> new_tally | Some v \<Rightarrow> v))"
        using Some r True by (simp add: per_class_process map_of_upsert)
      have old: "(case map_of (per_class (foldl process_sample init_state xs)) l of
               None \<Rightarrow> new_tally | Some v \<Rightarrow> v) = tally_of l (results xs)"
        using snoc by (simp add: tally_of_zero)
      have pos: "total_for l (results (xs @ [x])) \<noteq> 0"
        using Some r True by (simp add: results_snoc total_for_def count_where_snoc)
      show ?thesis using step old pos Some r True
        by (simp add: tally_wins_tally_of results_snoc)
    next
      case False
      then show ?thesis using snoc Some r
        by (auto simp: per_class_process results_snoc map_of_upsert total_for_def
            count_where_snoc tally_of_other)
    qed
  qed
qed

lemma keys_upsert:
  "map fst (upsert k v0 f d) = (if k \<in> set (map fst d) then map fst d else map fst d @ [k])"
  by (induction d) force+

lemma distinct_upsert: "distinct (map fst d) \<Longrightarrow> distinct (map fst (upsert k v0 f d))"
  by (simp add: keys_upsert)

lemma distinct_per_class_process:
  "distinct (map fst (per_class st)) \<Longrightarrow> distinct (map fst (per_class (process_sample st s)))"
  by (auto simp: per_class_process distinct_upsert split: option.splits)

lemma distinct_per_class_foldl:
  "distinct (map fst (per_class st)) \<Longrightarrow>
   distinct (map fst (per_class (foldl process_sample st xs)))"
  by (induction xs arbitrary: st) (auto simp: distinct_per_class_process)

lemma distinct_map_fst_sort_key:
  "distinct (map fst xs) \<Longrightarrow> distinct (map fst (sort_key fst xs))"
  using card_distinct distinct_card by force

lemma map_of_sort_key:
  "distinct (map fst xs) \<Longrightarrow> map_of (sort_key fst xs) = map_of xs"
  by (simp add: distinct_map_fst_sort_key map_of_inject_set)

lemma np_percentile_Some:
  "a \<noteq> [] \<Longrightarrow> 0 \<le> q \<Longrightarrow> q \<le> 100 \<Longrightarrow> \<exists>v. np_percentile a q = Some v"
  by (simp add: np_percentile_def Let_def)

lemma pct_or_zero_Some: "0 \<le> q \<Longrightarrow> q \<le> 100 \<Longrightarrow> \<exists>v. pct_or_zero a q = Some v"
  by (simp add: pct_or_zero_def np_percentile_Some)

lemma finalize_Some:
  "\<exists>art. finalize st = Some art \<and> art_n art = n_samples st
     \<and> art_per_class art = sort_key fst (per_class st)
     \<and> confusion_flat art = conf_mat_flat st \<and> confusion_hier art = conf_mat_hier st
     \<and> pct_or_zero (lat_flat st) 50 = Some (p50 (latency_flat art))
     \<and> pct_or_zero (lat_flat st) 95 = Some (p95 (latency_flat art))
     \<and> pct_or_zero (lat_hier st) 50 = Some (p50 (latency_hier art))
     \<and> pct_or_zero (lat_hier st) 95 = Some (p95 (latency_hier art))"
proof -
  obtain f50 where a: "pct_or_zero (lat_flat st) 50 = Some f50"
    using pct_or_zero_Some [of 50 "lat_flat st"] by auto
  obtain f95 where b: "pct_or_zero (lat_flat st) 95 = Some f95"
    using pct_or_zero_Some [of 95 "lat_flat st"] by auto
  obtain h50 where c: "pct_or_zero (lat_hier st) 50 = Some h50"
    using pct_or_zero_Some [of 50 "lat_hier st"] by auto
  obtain h95 where d: "pct_or_zero (lat_hier st) 95 = Some h95"
    using pct_or_zero_Some [of 95 "lat_hier st"] by auto
  show ?thesis by (simp add: finalize_def a b c d)
qed

lemma n_init: "n_samples init_state = 0"
  by (simp add: init_state_def)

lemma n_foldl: "n_samples (foldl process_sample st xs) = n_samples st + length xs"
  by (induction xs arbitrary: st) (auto simp: n_process_sample)

lemma run_eval_Some:
  "\<exists>art. run_eval rng Constructed limit src = Some art \<and> art_n art = length (consumed limit src)
     \<and> art_per_class art =
         sort_key fst (per_class (foldl process_sample init_state (consumed limit src)))
     \<and> confusion_flat art = conf_mat_flat (foldl process_sample init_state (consumed limit src))
     \<and> confusion_hier art = conf_mat_hier (foldl process_sample init_state (consumed limit src))"
  using finalize_Some [of "foldl process_sample init_state (consumed limit src)"]
  by (auto simp: run_eval_def eval_loop_init n_foldl n_init)

lemma failures_snoc:
  "failures (xs @ [x]) =
     failures xs @ (case sample_exn x of None \<Rightarrow> [] | Some e \<Rightarrow> [(Suc (length xs), e)])"
  by (simp add: failures_def List.map_filter_def enumerate_append_eq split: option.splits)

lemma log_foldl: "log (foldl process_sample init_state xs) = failures xs"
proof (induction xs rule: rev_induct)
  case Nil
  then show ?case by (simp add: init_state_def failures_def List.map_filter_def)
next
  case (snoc x xs)
  then show ?case
    by (simp add: log_process failures_snoc n_foldl n_init split: option.splits)
qed

lemma result_or_exn: "(sample_result s = None) = (sample_exn s \<noteq> None)"
  by (auto simp: sample_result_def sample_exn_def split: clf_result.splits sum.splits)

lemma results_failures_length: "length (results xs) + length (failures xs) = length xs"
proof (induction xs rule: rev_induct)
  case Nil
  then show ?case by (simp add: results_Nil failures_def List.map_filter_def)
next
  case (snoc x xs)
  then show ?case using result_or_exn [of x]
    by (auto simp: results_snoc failures_snoc split: option.splits)
qed

lemma process_raises:
  "outcome s = Raises e \<Longrightarrow>
   process_sample st s =
     st\<lparr>n_samples := n_samples st + 1, log := log st @ [(n_samples st + 1, e)]\<rparr>"
  by (simp add: process_sample_def try_body_def)

lemma consumed_pos: "0 < limit \<Longrightarrow> consumed limit src = take (nat limit) src"
  by (simp add: consumed_def)

lemma tally_wins_cases:
  "tally_wins l f h t =
     (if f = l \<and> h = l then
        t\<lparr>flat_correct := flat_correct t + 1, hier_correct := hier_correct t + 1,
          ties := ties t + 1\<rparr>
      else if f = l then
        t\<lparr>flat_correct := flat_correct t + 1, flat_wins := flat_wins t + 1\<rparr>
      else if h = l then
        t\<lparr>hier_correct := hier_correct t + 1, hier_wins := hier_wins t + 1\<rparr>
      else t)"
  by (simp add: tally_wins_def Let_def)

lemma per_class_art:
  "\<exists>art. run_eval rng Constructed limit src = Some art
     \<and> (\<forall>l. map_of (art_per_class art) l =
           (if total_for l (results (consumed limit src)) = 0 then None
            else Some (tally_of l (results (consumed limit src)))))"
proof -
  have "distinct (map fst (per_class (foldl process_sample init_state (consumed limit src))))"
    by (rule distinct_per_class_foldl) (simp add: init_state_def)
  then show ?thesis using run_eval_Some [of rng limit src]
    by (auto simp: map_of_sort_key per_class_foldl)
qed

lemma count_where_split:
  "count_where l P rs + count_where l (\<lambda>f h. \<not> P f h) rs = total_for l rs"
  unfolding count_where_def total_for_def
  by (induction rs) auto

lemma wins_partition:
  "count_where l (\<lambda>f h. h = l \<and> f \<noteq> l) rs + count_where l (\<lambda>f h. f = l \<and> h \<noteq> l) rs
     + count_where l (\<lambda>f h. f = l \<and> h = l) rs + count_where l (\<lambda>f h. f \<noteq> l \<and> h \<noteq> l) rs
   = total_for l rs"
  unfolding count_where_def total_for_def
  by (induction rs) auto

lemma sample_result_returning: "sample_result (returning t f h) = Some (t, f, h)"
  by (simp add: sample_result_def returning_def get_lat_def get_base_pred_def)

lemma sample_result_raising: "sample_result (raising t) = None"
  by (simp add: sample_result_def raising_def)

lemma results_Cons:
  "results (x # xs) = (case sample_result x of None \<Rightarrow> results xs | Some r \<Rightarrow> r # results xs)"
  by (simp add: results_def List.map_filter_def split: option.splits)

section \<open>Empty input\<close>

lemma pct_or_zero_Nil: "pct_or_zero [] q = Some 0"
  by (simp add: pct_or_zero_def)

text \<open>
  C5: with a classifier, on an empty sample sequence the artifact has \<open>n = 0\<close>, an empty \<open>per_class\<close> list,
  empty confusion matrices and percentiles 0.0 for both variants, whatever the limit; and
  the percentile expression of the source gives exactly 0.0 on any empty latency list.
\<close>

theorem run_eval_empty:
  "run_eval rng Constructed limit [] =
     Some \<lparr>art_n = 0, art_per_class = [],
           latency_flat = \<lparr>p50 = 0, p95 = 0\<rparr>, latency_hier = \<lparr>p50 = 0, p95 = 0\<rparr>,
           confusion_flat = [], confusion_hier = []\<rparr>
   \<and> pct_or_zero [] 50 = Some 0 \<and> pct_or_zero [] 95 = Some 0"
  by (simp add: run_eval_def finalize_def init_state_def pct_or_zero_Nil)

section \<open>Failing samples\<close>

text \<open>
  C1, as the code has it: with a classifier, \<^verbatim>\<open>run_eval\<close> always returns an artifact. A sample whose
  classification raises changes nothing but \<open>n\<close> and the log: the handler logs the
  exception with the number of the sample and the loop goes on. The sample is counted:
  \<open>n\<close> is the number of samples taken from the source, those that ran to the end of the
  \<^verbatim>\<open>try\<close> body and those that raised together, and the log holds exactly the samples that
  raised, each with its position.
\<close>

theorem run_eval_counts_failed_samples:
  "(\<exists>art. run_eval rng Constructed limit src = Some art
      \<and> art_n art = length (consumed limit src)
      \<and> art_n art = length (results (consumed limit src)) + length (failures (consumed limit src)))
   \<and> log (eval_loop limit src init_state) = failures (consumed limit src)
   \<and> (\<forall>st s e. outcome s = Raises e \<longrightarrow>
         process_sample st s =
           st\<lparr>n_samples := n_samples st + 1, log := log st @ [(n_samples st + 1, e)]\<rparr>)"
  using run_eval_Some [of rng limit src]
  by (auto simp: results_failures_length eval_loop_init log_foldl process_raises)

theorem run_eval_counts_failed_samples_witness:
  "outcome (raising ''BPSK'') = Raises (ClassifierError ''boom'')
   \<and> process_sample init_state (raising ''BPSK'') =
       init_state\<lparr>n_samples := 1, log := [(1, ClassifierError ''boom'')]\<rparr>"
proof -
  have o: "outcome (raising ''BPSK'') = Raises (ClassifierError ''boom'')"
    by (simp add: raising_def)
  have "\<forall>st s e. outcome s = Raises e \<longrightarrow>
         process_sample st s =
           st\<lparr>n_samples := n_samples st + 1, log := log st @ [(n_samples st + 1, e)]\<rparr>"
    using run_eval_counts_failed_samples [of fixed_draws 0 "[]"] by blast
  then have "process_sample init_state (raising ''BPSK'') =
      init_state\<lparr>n_samples := n_samples init_state + 1,
        log := log init_state @ [(n_samples init_state + 1, ClassifierError ''boom'')]\<rparr>"
    using o by blast
  then show ?thesis using o by (simp add: init_state_def)
qed

text \<open>
  The claim that a skipped sample is not counted in \<open>n\<close> fails: one sample whose
  classification raises gives \<open>n = 1\<close> and no processed sample.
\<close>

theorem n_counts_failed_sample_counterexample:
  "run_eval fixed_draws Constructed 2000 [raising ''BPSK''] =
     Some \<lparr>art_n = 1, art_per_class = [],
           latency_flat = \<lparr>p50 = 0, p95 = 0\<rparr>, latency_hier = \<lparr>p50 = 0, p95 = 0\<rparr>,
           confusion_flat = [], confusion_hier = []\<rparr>
   \<and> length (results (consumed 2000 [raising ''BPSK''])) = 0"
  by (simp add: run_eval_def finalize_def init_state_def pct_or_zero_Nil process_sample_def
      try_body_def raising_def consumed_def results_def List.map_filter_def sample_result_def)

section \<open>Order of the per-class list\<close>

lemma fst_mock_row: "fst (mock_row rng num_samples im) = snd im"
  by (simp add: mock_row_def Let_def)

lemma mock_count_not_negative:
  assumes "0 \<le> num_samples" and "0 \<le> low" and "low \<le> high"
  shows "0 \<le> py_int (of_int (num_samples div int (length modulation_types)) * np_uniform low high u)"
proof -
  have "0 \<le> frac u" by simp
  then have "0 \<le> (high - low) * frac u" using assms(3) by simp
  then have d: "0 \<le> np_uniform low high u" using assms(2) by (simp add: np_uniform_def)
  have "0 \<le> num_samples div int (length modulation_types)"
    using assms(1) by (simp add: modulation_types_def pos_imp_zdiv_nonneg_iff)
  then have "0 \<le> real_of_int (num_samples div int (length modulation_types)) * np_uniform low high u"
    using d by simp
  then show ?thesis by (simp add: py_int_def)
qed

lemma mock_labels:
  assumes "create_mock_results rng num_samples = Some art"
  shows "map fst (art_per_class art) = modulation_types"
proof -
  have "art_per_class art = map (mock_row rng num_samples) (enumerate 0 modulation_types)"
    using assms
    by (auto simp: create_mock_results_def Let_def split: if_splits option.splits)
  then have "map fst (art_per_class art) = map snd (enumerate 0 modulation_types)"
    by (simp add: fst_mock_row o_def)
  then show ?thesis by (simp add: map_snd_enumerate)
qed

lemma mock_artifact_example:
  "create_mock_results fixed_draws 6 =
     Some \<lparr>art_n = 6,
       art_per_class = [(''BPSK'', new_tally), (''QPSK'', new_tally), (''8PSK'', new_tally),
         (''16QAM'', new_tally), (''64QAM'', new_tally), (''FM'', new_tally)],
       latency_flat = \<lparr>p50 = 1, p95 = 1\<rparr>, latency_hier = \<lparr>p50 = 2, p95 = 2\<rparr>,
       confusion_flat = [(''BPSK'', [(''BPSK'', 10), (''other'', 2)]),
         (''QPSK'', [(''QPSK'', 10), (''other'', 2)]), (''8PSK'', [(''8PSK'', 10), (''other'', 2)]),
         (''16QAM'', [(''16QAM'', 10), (''other'', 2)]),
         (''64QAM'', [(''64QAM'', 10), (''other'', 2)]), (''FM'', [(''FM'', 10), (''other'', 2)])],
       confusion_hier = [(''BPSK'', [(''BPSK'', 12), (''other'', 1)]),
         (''QPSK'', [(''QPSK'', 12), (''other'', 1)]), (''8PSK'', [(''8PSK'', 12), (''other'', 1)]),
         (''16QAM'', [(''16QAM'', 12), (''other'', 1)]),
         (''64QAM'', [(''64QAM'', 12), (''other'', 1)]), (''FM'', [(''FM'', 12), (''other'', 1)])]\<rparr>"
proof -
  have six: "[0..<nat 6] = [0, 1, 2, 3, 4, 5]" by (simp add: upt_rec)
  have rows: "map (mock_row fixed_draws 6) (enumerate 0 modulation_types) =
      [(''BPSK'', new_tally), (''QPSK'', new_tally), (''8PSK'', new_tally),
       (''16QAM'', new_tally), (''64QAM'', new_tally), (''FM'', new_tally)]"
    by (simp add: modulation_types_def mock_row_def fixed_draws_def py_int_def new_tally_def
        np_uniform_def frac_def)
  have pf: "np_percentile [1, 1, 1, 1, 1, 1] 50 = Some 1"
      "np_percentile [1, 1, 1, 1, 1, 1] 95 = Some 1"
    by (simp_all add: np_percentile_def Let_def)
  have ph: "np_percentile [2, 2, 2, 2, 2, 2] 50 = Some 2"
      "np_percentile [2, 2, 2, 2, 2, 2] 95 = Some 2"
    by (simp_all add: np_percentile_def Let_def)
  show ?thesis
    unfolding create_mock_results_def Let_def rows six
    by (simp add: fixed_draws_def pf ph modulation_types_def)
qed

text \<open>
  C8, as the code has it: when the classifier was constructed, \<^verbatim>\<open>run_eval\<close> returns an
  artifact whose \<open>per_class\<close> list is the tallies of the loop sorted ascending by label,
  with no label twice. Without a classifier (unavailable, or its constructor raises)
  \<^verbatim>\<open>run_eval\<close> returns the mock artifact, whose \<open>per_class\<close> list has the six
  modulation types in the fixed order BPSK, QPSK, 8PSK, 16QAM, 64QAM, FM.
\<close>

theorem per_class_sorted:
  "(\<exists>art. run_eval rng Constructed limit src = Some art
      \<and> sorted (map fst (art_per_class art)) \<and> distinct (map fst (art_per_class art))
      \<and> art_per_class art = sort_key fst (per_class (eval_loop limit src init_state))
      \<and> set (art_per_class art) = set (per_class (eval_loop limit src init_state)))
   \<and> run_eval rng Unavailable limit src = create_mock_results rng limit
   \<and> (\<forall>e. run_eval rng (ConstructorRaises e) limit src = create_mock_results rng limit)
   \<and> (\<forall>art. create_mock_results rng limit = Some art \<longrightarrow>
         map fst (art_per_class art) = [''BPSK'', ''QPSK'', ''8PSK'', ''16QAM'', ''64QAM'', ''FM''])"
proof -
  have "distinct (map fst (per_class (foldl process_sample init_state (consumed limit src))))"
    by (rule distinct_per_class_foldl) (simp add: init_state_def)
  then have a: "\<exists>art. run_eval rng Constructed limit src = Some art
      \<and> sorted (map fst (art_per_class art)) \<and> distinct (map fst (art_per_class art))
      \<and> art_per_class art = sort_key fst (per_class (eval_loop limit src init_state))
      \<and> set (art_per_class art) = set (per_class (eval_loop limit src init_state))"
    using run_eval_Some [of rng limit src]
    by (auto simp: distinct_map_fst_sort_key eval_loop_init)
  have b: "run_eval rng Unavailable limit src = create_mock_results rng limit"
    by (simp add: run_eval_def)
  have c: "\<forall>e. run_eval rng (ConstructorRaises e) limit src = create_mock_results rng limit"
    by (simp add: run_eval_def)
  have d: "\<forall>art. create_mock_results rng limit = Some art \<longrightarrow>
         map fst (art_per_class art) = [''BPSK'', ''QPSK'', ''8PSK'', ''16QAM'', ''64QAM'', ''FM'']"
    using mock_labels [of rng limit] by (simp add: modulation_types_def)
  show ?thesis using a b c d by blast
qed

theorem per_class_sorted_witness:
  "create_mock_results fixed_draws 6 =
     Some \<lparr>art_n = 6,
       art_per_class = [(''BPSK'', new_tally), (''QPSK'', new_tally), (''8PSK'', new_tally),
         (''16QAM'', new_tally), (''64QAM'', new_tally), (''FM'', new_tally)],
       latency_flat = \<lparr>p50 = 1, p95 = 1\<rparr>, latency_hier = \<lparr>p50 = 2, p95 = 2\<rparr>,
       confusion_flat = [(''BPSK'', [(''BPSK'', 10), (''other'', 2)]),
         (''QPSK'', [(''QPSK'', 10), (''other'', 2)]), (''8PSK'', [(''8PSK'', 10), (''other'', 2)]),
         (''16QAM'', [(''16QAM'', 10), (''other'', 2)]),
         (''64QAM'', [(''64QAM'', 10), (''other'', 2)]), (''FM'', [(''FM'', 10), (''other'', 2)])],
       confusion_hier = [(''BPSK'', [(''BPSK'', 12), (''other'', 1)]),
         (''QPSK'', [(''QPSK'', 12), (''other'', 1)]), (''8PSK'', [(''8PSK'', 12), (''other'', 1)]),
         (''16QAM'', [(''16QAM'', 12), (''other'', 1)]),
         (''64QAM'', [(''64QAM'', 12), (''other'', 1)]), (''FM'', [(''FM'', 12), (''other'', 1)])]\<rparr>
   \<and> map fst [(''BPSK'', new_tally), (''QPSK'', new_tally), (''8PSK'', new_tally),
         (''16QAM'', new_tally), (''64QAM'', new_tally), (''FM'', new_tally)]
       = [''BPSK'', ''QPSK'', ''8PSK'', ''16QAM'', ''64QAM'', ''FM'']"
proof -
  note ex = mock_artifact_example
  have "\<forall>art. create_mock_results fixed_draws 6 = Some art \<longrightarrow>
         map fst (art_per_class art) = [''BPSK'', ''QPSK'', ''8PSK'', ''16QAM'', ''64QAM'', ''FM'']"
    using per_class_sorted [of fixed_draws 6 "[]"] by blast
  then have "map fst (art_per_class (the (create_mock_results fixed_draws 6)))
       = [''BPSK'', ''QPSK'', ''8PSK'', ''16QAM'', ''64QAM'', ''FM'']"
    using ex by simp
  then show ?thesis using ex by simp
qed

text \<open>
  The claim that the \<open>per_class\<close> list of every artifact of \<^verbatim>\<open>run_eval\<close> is sorted fails
  without a classifier: the mock artifact has QPSK before 8PSK.
\<close>

theorem mock_per_class_unsorted_counterexample:
  "run_eval fixed_draws Unavailable 6 [] =
     Some \<lparr>art_n = 6,
       art_per_class = [(''BPSK'', new_tally), (''QPSK'', new_tally), (''8PSK'', new_tally),
         (''16QAM'', new_tally), (''64QAM'', new_tally), (''FM'', new_tally)],
       latency_flat = \<lparr>p50 = 1, p95 = 1\<rparr>, latency_hier = \<lparr>p50 = 2, p95 = 2\<rparr>,
       confusion_flat = [(''BPSK'', [(''BPSK'', 10), (''other'', 2)]),
         (''QPSK'', [(''QPSK'', 10), (''other'', 2)]), (''8PSK'', [(''8PSK'', 10), (''other'', 2)]),
         (''16QAM'', [(''16QAM'', 10), (''other'', 2)]),
         (''64QAM'', [(''64QAM'', 10), (''other'', 2)]), (''FM'', [(''FM'', 10), (''other'', 2)])],
       confusion_hier = [(''BPSK'', [(''BPSK'', 12), (''other'', 1)]),
         (''QPSK'', [(''QPSK'', 12), (''other'', 1)]), (''8PSK'', [(''8PSK'', 12), (''other'', 1)]),
         (''16QAM'', [(''16QAM'', 12), (''other'', 1)]),
         (''64QAM'', [(''64QAM'', 12), (''other'', 1)]), (''FM'', [(''FM'', 12), (''other'', 1)])]\<rparr>
   \<and> \<not> sorted (map fst [(''BPSK'', new_tally), (''QPSK'', new_tally), (''8PSK'', new_tally),
         (''16QAM'', new_tally), (''64QAM'', new_tally), (''FM'', new_tally)])"
proof -
  have "run_eval fixed_draws Unavailable 6 [] = create_mock_results fixed_draws 6"
    by (simp add: run_eval_def)
  moreover have "\<not> ''QPSK'' \<le> ''8PSK''"
    by (simp add: less_eq_char_def)
  ultimately show ?thesis using mock_artifact_example by simp
qed

section \<open>The sample limit\<close>

text \<open>
  C10: with a positive limit the loop checks the bound before it processes a sample (a
  state whose \<open>n\<close> has reached the limit is returned as it is), so only the first
  \<open>limit\<close> samples are processed and \<open>n\<close> is at most the limit; with limit 0 the check
  is off and every sample of the source is processed.
\<close>

theorem limit_bounds_n:
  "(0 < limit \<longrightarrow>
      (\<exists>art. run_eval rng Constructed limit src = Some art \<and> int (art_n art) \<le> limit
         \<and> art_n art = min (nat limit) (length src))
      \<and> run_eval rng Constructed limit src = run_eval rng Constructed 0 (take (nat limit) src)
      \<and> (\<forall>st s rest. limit \<le> int (n_samples st) \<longrightarrow> eval_loop limit (s # rest) st = st))
   \<and> (\<exists>art. run_eval rng Constructed 0 src = Some art \<and> art_n art = length src)
   \<and> (\<forall>st. eval_loop 0 src st = foldl process_sample st src)"
proof -
  have a: "\<exists>art. run_eval rng Constructed limit src = Some art \<and> int (art_n art) \<le> limit
           \<and> art_n art = min (nat limit) (length src)" if "0 < limit"
    using run_eval_Some [of rng limit src] that by (auto simp: consumed_pos)
  have b: "run_eval rng Constructed limit src = run_eval rng Constructed 0 (take (nat limit) src)" if "0 < limit"
    using that by (simp add: run_eval_def eval_loop_init consumed_def)
  have c: "\<forall>st s rest. limit \<le> int (n_samples st) \<longrightarrow> eval_loop limit (s # rest) st = st"
    if "0 < limit"
    using that by simp
  have d: "\<exists>art. run_eval rng Constructed 0 src = Some art \<and> art_n art = length src"
    using run_eval_Some [of rng 0 src] by (auto simp: consumed_def)
  have e: "\<forall>st. eval_loop 0 src st = foldl process_sample st src"
    by (simp add: eval_loop_foldl)
  show ?thesis using a b c d e by blast
qed

theorem limit_bounds_n_witness:
  "(0::int) < 2
   \<and> (\<exists>art. run_eval fixed_draws Constructed 2 [returning ''BPSK'' ''BPSK'' ''BPSK'', raising ''QPSK'',
          returning ''QPSK'' ''QPSK'' ''QPSK''] = Some art \<and> art_n art = 2)"
proof -
  let ?src = "[returning ''BPSK'' ''BPSK'' ''BPSK'', raising ''QPSK'',
          returning ''QPSK'' ''QPSK'' ''QPSK'']"
  have h: "(0::int) < 2" by simp
  have "\<exists>art. run_eval fixed_draws Constructed 2 ?src = Some art \<and> int (art_n art) \<le> 2
         \<and> art_n art = min (nat 2) (length ?src)"
    using limit_bounds_n [of 2 fixed_draws ?src] h by blast
  then show ?thesis using h by auto
qed

section \<open>Invariants of the tallies\<close>

text \<open>
  C3: a label has a tally in the artifact exactly when a processed sample has it as true
  label, and for every such tally \<open>hier_wins + flat_wins + ties\<close> is at most the number
  of processed samples of that label, \<open>flat_correct\<close> plus the number of those samples
  with a wrong flat prediction is that number, and what the win/tie sum leaves out are the
  samples with both predictions wrong.
\<close>

theorem tally_invariants:
  "\<exists>art. run_eval rng Constructed limit src = Some art
     \<and> (\<forall>l. (l \<in> fst ` set (art_per_class art)) = (0 < total_for l (results (consumed limit src))))
     \<and> (\<forall>l t. map_of (art_per_class art) l = Some t \<longrightarrow>
           hier_wins t + flat_wins t + ties t \<le> total_for l (results (consumed limit src))
         \<and> flat_correct t + count_where l (\<lambda>f h. f \<noteq> l) (results (consumed limit src))
             = total_for l (results (consumed limit src))
         \<and> hier_wins t + flat_wins t + ties t
             + count_where l (\<lambda>f h. f \<noteq> l \<and> h \<noteq> l) (results (consumed limit src))
             = total_for l (results (consumed limit src)))"
proof -
  define rs where "rs = results (consumed limit src)"
  obtain art where art: "run_eval rng Constructed limit src = Some art"
    and m: "\<And>l. map_of (art_per_class art) l =
           (if total_for l rs = 0 then None else Some (tally_of l rs))"
    using per_class_art [of rng limit src] unfolding rs_def by blast
  have dom: "(l \<in> fst ` set (art_per_class art)) = (0 < total_for l rs)" for l
    using m [of l] by (simp add: dom_map_of_conv_image_fst [symmetric] domIff)
  have inv: "hier_wins t + flat_wins t + ties t \<le> total_for l rs
         \<and> flat_correct t + count_where l (\<lambda>f h. f \<noteq> l) rs = total_for l rs
         \<and> hier_wins t + flat_wins t + ties t + count_where l (\<lambda>f h. f \<noteq> l \<and> h \<noteq> l) rs
             = total_for l rs"
    if "map_of (art_per_class art) l = Some t" for l t
  proof -
    have t: "t = tally_of l rs" using that m [of l] by (simp split: if_splits)
    show ?thesis
      using wins_partition [of l rs] count_where_split [of l "\<lambda>f h. f = l" rs]
      by (simp add: t tally_of_def)
  qed
  show ?thesis using art dom inv unfolding rs_def by blast
qed

theorem tally_invariants_witness:
  "\<exists>art t. run_eval fixed_draws Constructed 0 [returning ''BPSK'' ''BPSK'' ''BPSK'', returning ''QPSK'' ''BPSK'' ''QPSK'',
        returning ''QPSK'' ''QPSK'' ''BPSK'', returning ''QPSK'' ''FM'' ''AM''] = Some art
     \<and> map_of (art_per_class art) ''QPSK'' = Some t
     \<and> hier_wins t + flat_wins t + ties t \<le> 3
     \<and> flat_correct t + 2 = 3
     \<and> hier_wins t + flat_wins t + ties t + 1 = 3"
proof -
  let ?src = "[returning ''BPSK'' ''BPSK'' ''BPSK'', returning ''QPSK'' ''BPSK'' ''QPSK'',
        returning ''QPSK'' ''QPSK'' ''BPSK'', returning ''QPSK'' ''FM'' ''AM'']"
  have rs: "results (consumed 0 ?src) =
      [(''BPSK'', ''BPSK'', ''BPSK''), (''QPSK'', ''BPSK'', ''QPSK''),
       (''QPSK'', ''QPSK'', ''BPSK''), (''QPSK'', ''FM'', ''AM'')]"
    by (simp add: consumed_def results_Cons sample_result_returning results_Nil)
  have tot: "total_for ''QPSK'' (results (consumed 0 ?src)) = 3"
    unfolding rs by (simp add: total_for_def count_where_def)
  have fw: "count_where ''QPSK'' (\<lambda>f h. f \<noteq> ''QPSK'') (results (consumed 0 ?src)) = 2"
    unfolding rs by (simp add: count_where_def)
  have bw: "count_where ''QPSK'' (\<lambda>f h. f \<noteq> ''QPSK'' \<and> h \<noteq> ''QPSK'')
      (results (consumed 0 ?src)) = 1"
    unfolding rs by (simp add: count_where_def)
  obtain art where art: "run_eval fixed_draws Constructed 0 ?src = Some art"
    and dom: "\<And>l. (l \<in> fst ` set (art_per_class art)) = (0 < total_for l (results (consumed 0 ?src)))"
    and inv: "\<And>l t. map_of (art_per_class art) l = Some t \<Longrightarrow>
           hier_wins t + flat_wins t + ties t \<le> total_for l (results (consumed 0 ?src))
         \<and> flat_correct t + count_where l (\<lambda>f h. f \<noteq> l) (results (consumed 0 ?src))
             = total_for l (results (consumed 0 ?src))
         \<and> hier_wins t + flat_wins t + ties t
             + count_where l (\<lambda>f h. f \<noteq> l \<and> h \<noteq> l) (results (consumed 0 ?src))
             = total_for l (results (consumed 0 ?src))"
    using tally_invariants [of fixed_draws 0 ?src] by blast
  have "''QPSK'' \<in> fst ` set (art_per_class art)"
    using dom [of "''QPSK''"] tot by simp
  then obtain t where t: "map_of (art_per_class art) ''QPSK'' = Some t"
    by (metis domD dom_map_of_conv_image_fst)
  show ?thesis using art t inv [OF t] unfolding tot fw bw by blast
qed

section \<open>The tally update\<close>

lemma scenario_sorted:
  "sort_key fst
     [(''BPSK'', \<lparr>flat_correct = 1, hier_correct = 1, hier_wins = 0, flat_wins = 0, ties = 1\<rparr>),
      (''QPSK'', \<lparr>flat_correct = 1, hier_correct = 1, hier_wins = 1, flat_wins = 1, ties = 0\<rparr>)] =
     [(''BPSK'', \<lparr>flat_correct = 1, hier_correct = 1, hier_wins = 0, flat_wins = 0, ties = 1\<rparr>),
      (''QPSK'', \<lparr>flat_correct = 1, hier_correct = 1, hier_wins = 1, flat_wins = 1, ties = 0\<rparr>)]"
  by (simp add: less_eq_char_def)

lemma scenario_per_class:
  assumes "sample_result s1 = Some (''BPSK'', ''BPSK'', ''BPSK'')"
    and "sample_result s2 = Some (''QPSK'', ''BPSK'', ''QPSK'')"
    and "sample_result s3 = Some (''QPSK'', ''QPSK'', ''BPSK'')"
  shows "per_class (foldl process_sample init_state [s1, s2, s3]) =
     [(''BPSK'', \<lparr>flat_correct = 1, hier_correct = 1, hier_wins = 0, flat_wins = 0, ties = 1\<rparr>),
      (''QPSK'', \<lparr>flat_correct = 1, hier_correct = 1, hier_wins = 1, flat_wins = 1, ties = 0\<rparr>)]"
  by (simp add: per_class_process assms init_state_def tally_wins_def new_tally_def)

lemma scenario_artifact:
  assumes r: "sample_result s1 = Some (''BPSK'', ''BPSK'', ''BPSK'')"
      "sample_result s2 = Some (''QPSK'', ''BPSK'', ''QPSK'')"
      "sample_result s3 = Some (''QPSK'', ''QPSK'', ''BPSK'')"
    and lim: "limit = 0 \<or> 3 \<le> limit"
  shows "\<exists>art. run_eval rng Constructed limit [s1, s2, s3] = Some art \<and> art_n art = 3 \<and>
            art_per_class art =
              [(''BPSK'', \<lparr>flat_correct = 1, hier_correct = 1, hier_wins = 0, flat_wins = 0, ties = 1\<rparr>),
               (''QPSK'', \<lparr>flat_correct = 1, hier_correct = 1, hier_wins = 1, flat_wins = 1, ties = 0\<rparr>)]"
proof -
  have cons: "consumed limit [s1, s2, s3] = [s1, s2, s3]"
    using lim by (auto simp: consumed_def)
  obtain art where art: "run_eval rng Constructed limit [s1, s2, s3] = Some art"
      and n: "art_n art = length (consumed limit [s1, s2, s3])"
      and pc: "art_per_class art =
        sort_key fst (per_class (foldl process_sample init_state (consumed limit [s1, s2, s3])))"
    using run_eval_Some [of rng limit "[s1, s2, s3]"] by blast
  have n3: "art_n art = 3" using n unfolding cons by simp
  have "art_per_class art =
        [(''BPSK'', \<lparr>flat_correct = 1, hier_correct = 1, hier_wins = 0, flat_wins = 0, ties = 1\<rparr>),
         (''QPSK'', \<lparr>flat_correct = 1, hier_correct = 1, hier_wins = 1, flat_wins = 1, ties = 0\<rparr>)]"
    unfolding pc cons scenario_per_class [OF r] by (rule scenario_sorted)
  then show ?thesis using art n3 by blast
qed

lemma per_class_step:
  assumes "sample_result s = Some (l, f, h)"
  shows "map_of (per_class (process_sample st s)) l =
        Some (tally_wins l f h (case map_of (per_class st) l of None \<Rightarrow> new_tally | Some t \<Rightarrow> t))
      \<and> (\<forall>l'. l' \<noteq> l \<longrightarrow> map_of (per_class (process_sample st s)) l' = map_of (per_class st) l')"
  using assms by (simp add: per_class_process map_of_upsert)

text \<open>
  C2: for a sample whose \<^verbatim>\<open>try\<close> body runs to its end, the tally of its true label
  becomes \<open>tally_wins\<close> of the old tally (the zero tally for a new label) and no other
  tally changes; \<open>tally_wins\<close> depends only on whether the flat and the hierarchical
  prediction equal the label: both correct adds one to \<open>flat_correct\<close>,
  \<open>hier_correct\<close> and \<open>ties\<close>; flat only to \<open>flat_correct\<close> and \<open>flat_wins\<close>;
  hierarchical only to \<open>hier_correct\<close> and \<open>hier_wins\<close>; neither changes nothing. For
  the three samples (BPSK, BPSK, BPSK), (QPSK, BPSK, QPSK), (QPSK, QPSK, BPSK), given as
  (true, flat, hier), the artifact has \<open>n = 3\<close>, the BPSK tally with \<open>flat_correct\<close>,
  \<open>hier_correct\<close> and \<open>ties\<close> 1 and the QPSK tally with \<open>flat_correct\<close>,
  \<open>hier_correct\<close>, \<open>hier_wins\<close> and \<open>flat_wins\<close> 1, all other counters 0.
\<close>

theorem tally_update_pure:
  "(\<forall>st s l f h. sample_result s = Some (l, f, h) \<longrightarrow>
      map_of (per_class (process_sample st s)) l =
        Some (tally_wins l f h (case map_of (per_class st) l of None \<Rightarrow> new_tally | Some t \<Rightarrow> t))
      \<and> (\<forall>l'. l' \<noteq> l \<longrightarrow> map_of (per_class (process_sample st s)) l' = map_of (per_class st) l'))
   \<and> (\<forall>l f h t. tally_wins l f h t =
        (if f = l \<and> h = l then
           t\<lparr>flat_correct := flat_correct t + 1, hier_correct := hier_correct t + 1,
             ties := ties t + 1\<rparr>
         else if f = l then
           t\<lparr>flat_correct := flat_correct t + 1, flat_wins := flat_wins t + 1\<rparr>
         else if h = l then
           t\<lparr>hier_correct := hier_correct t + 1, hier_wins := hier_wins t + 1\<rparr>
         else t))
   \<and> (\<forall>s1 s2 s3 limit.
         sample_result s1 = Some (''BPSK'', ''BPSK'', ''BPSK'') \<and>
         sample_result s2 = Some (''QPSK'', ''BPSK'', ''QPSK'') \<and>
         sample_result s3 = Some (''QPSK'', ''QPSK'', ''BPSK'') \<and>
         (limit = 0 \<or> 3 \<le> limit) \<longrightarrow>
         (\<exists>art. run_eval rng Constructed limit [s1, s2, s3] = Some art \<and> art_n art = 3 \<and>
            art_per_class art =
              [(''BPSK'', \<lparr>flat_correct = 1, hier_correct = 1, hier_wins = 0, flat_wins = 0, ties = 1\<rparr>),
               (''QPSK'', \<lparr>flat_correct = 1, hier_correct = 1, hier_wins = 1, flat_wins = 1, ties = 0\<rparr>)]))"
proof (intro conjI allI impI)
  fix st s l f h
  assume "sample_result s = Some (l, f, h)"
  then show "map_of (per_class (process_sample st s)) l =
        Some (tally_wins l f h (case map_of (per_class st) l of None \<Rightarrow> new_tally | Some t \<Rightarrow> t))"
    using per_class_step by blast
next
  fix st s l f h l'
  assume "sample_result s = Some (l, f, h)" and "l' \<noteq> l"
  then show "map_of (per_class (process_sample st s)) l' = map_of (per_class st) l'"
    using per_class_step by blast
next
  fix l f h t
  show "tally_wins l f h t =
        (if f = l \<and> h = l then
           t\<lparr>flat_correct := flat_correct t + 1, hier_correct := hier_correct t + 1,
             ties := ties t + 1\<rparr>
         else if f = l then
           t\<lparr>flat_correct := flat_correct t + 1, flat_wins := flat_wins t + 1\<rparr>
         else if h = l then
           t\<lparr>hier_correct := hier_correct t + 1, hier_wins := hier_wins t + 1\<rparr>
         else t)"
    by (rule tally_wins_cases)
next
  fix s1 s2 s3 :: sample and limit :: int
  assume "sample_result s1 = Some (''BPSK'', ''BPSK'', ''BPSK'') \<and>
         sample_result s2 = Some (''QPSK'', ''BPSK'', ''QPSK'') \<and>
         sample_result s3 = Some (''QPSK'', ''QPSK'', ''BPSK'') \<and>
         (limit = 0 \<or> 3 \<le> limit)"
  then show "\<exists>art. run_eval rng Constructed limit [s1, s2, s3] = Some art \<and> art_n art = 3 \<and>
            art_per_class art =
              [(''BPSK'', \<lparr>flat_correct = 1, hier_correct = 1, hier_wins = 0, flat_wins = 0, ties = 1\<rparr>),
               (''QPSK'', \<lparr>flat_correct = 1, hier_correct = 1, hier_wins = 1, flat_wins = 1, ties = 0\<rparr>)]"
    using scenario_artifact [of s1 s2 s3 limit rng] by blast
qed

theorem tally_update_pure_witness:
  "sample_result (returning ''BPSK'' ''BPSK'' ''BPSK'') = Some (''BPSK'', ''BPSK'', ''BPSK'')
   \<and> sample_result (returning ''QPSK'' ''BPSK'' ''QPSK'') = Some (''QPSK'', ''BPSK'', ''QPSK'')
   \<and> sample_result (returning ''QPSK'' ''QPSK'' ''BPSK'') = Some (''QPSK'', ''QPSK'', ''BPSK'')
   \<and> ((2000::int) = 0 \<or> (3::int) \<le> 2000)
   \<and> (\<exists>art. run_eval fixed_draws Constructed 2000 [returning ''BPSK'' ''BPSK'' ''BPSK'', returning ''QPSK'' ''BPSK'' ''QPSK'',
           returning ''QPSK'' ''QPSK'' ''BPSK''] = Some art \<and> art_n art = 3 \<and>
         art_per_class art =
           [(''BPSK'', \<lparr>flat_correct = 1, hier_correct = 1, hier_wins = 0, flat_wins = 0, ties = 1\<rparr>),
            (''QPSK'', \<lparr>flat_correct = 1, hier_correct = 1, hier_wins = 1, flat_wins = 1, ties = 0\<rparr>)])
   \<and> map_of (per_class (process_sample init_state (returning ''QPSK'' ''BPSK'' ''QPSK''))) ''QPSK''
       = Some \<lparr>flat_correct = 0, hier_correct = 1, hier_wins = 1, flat_wins = 0, ties = 0\<rparr>"
proof -
  have r1: "sample_result (returning ''BPSK'' ''BPSK'' ''BPSK'') = Some (''BPSK'', ''BPSK'', ''BPSK'')"
    by (rule sample_result_returning)
  have r2: "sample_result (returning ''QPSK'' ''BPSK'' ''QPSK'') = Some (''QPSK'', ''BPSK'', ''QPSK'')"
    by (rule sample_result_returning)
  have r3: "sample_result (returning ''QPSK'' ''QPSK'' ''BPSK'') = Some (''QPSK'', ''QPSK'', ''BPSK'')"
    by (rule sample_result_returning)
  have lim: "(2000::int) = 0 \<or> (3::int) \<le> 2000" by simp
  note main = tally_update_pure [of fixed_draws]
  have scen: "\<exists>art. run_eval fixed_draws Constructed 2000 [returning ''BPSK'' ''BPSK'' ''BPSK'', returning ''QPSK'' ''BPSK'' ''QPSK'',
           returning ''QPSK'' ''QPSK'' ''BPSK''] = Some art \<and> art_n art = 3 \<and>
         art_per_class art =
           [(''BPSK'', \<lparr>flat_correct = 1, hier_correct = 1, hier_wins = 0, flat_wins = 0, ties = 1\<rparr>),
            (''QPSK'', \<lparr>flat_correct = 1, hier_correct = 1, hier_wins = 1, flat_wins = 1, ties = 0\<rparr>)]"
    using main r1 r2 r3 lim by blast
  have "map_of (per_class (process_sample init_state (returning ''QPSK'' ''BPSK'' ''QPSK''))) ''QPSK''
      = Some (tally_wins ''QPSK'' ''BPSK'' ''QPSK''
          (case map_of (per_class init_state) ''QPSK'' of None \<Rightarrow> new_tally | Some t \<Rightarrow> t))"
    using main r2 by blast
  then have step: "map_of (per_class (process_sample init_state (returning ''QPSK'' ''BPSK'' ''QPSK''))) ''QPSK''
       = Some \<lparr>flat_correct = 0, hier_correct = 1, hier_wins = 1, flat_wins = 0, ties = 0\<rparr>"
    by (simp add: init_state_def new_tally_def tally_wins_def)
  show ?thesis using r1 r2 r3 lim scen step by blast
qed

section \<open>The confusion matrices\<close>

lemma sum_upsert_Suc: "sum_list (map snd (upsert k 0 Suc row)) = Suc (sum_list (map snd row))"
  by (induction row) auto

lemma row_sum_bump: "row_sum (bump mat y yhat) l = row_sum mat l + (if l = y then 1 else 0)"
  by (simp add: row_sum_def bump_def map_of_upsert sum_upsert_Suc split: option.splits)

lemma entry_bump:
  "entry (bump mat y yhat) a b =
     (if a = y \<and> b = yhat then Some (case entry mat y yhat of None \<Rightarrow> 1 | Some c \<Rightarrow> Suc c)
      else entry mat a b)"
  by (simp add: entry_def bump_def map_of_upsert split: option.splits)

lemma row_present_bump:
  "(map_of (bump mat y yhat) l \<noteq> None) = (l = y \<or> map_of mat l \<noteq> None)"
  by (simp add: bump_def map_of_upsert)

lemma total_for_snoc:
  "total_for l (rs @ [(t, f, h)]) = total_for l rs + (if t = l then 1 else 0)"
  by (simp add: total_for_def count_where_snoc)

lemma conf_flat_foldl:
  "row_sum (conf_mat_flat (foldl process_sample init_state xs)) l = total_for l (results xs)
   \<and> (map_of (conf_mat_flat (foldl process_sample init_state xs)) l \<noteq> None)
       = (0 < total_for l (results xs))
   \<and> entry (conf_mat_flat (foldl process_sample init_state xs)) l p =
       (if count_where l (\<lambda>f h. f = p) (results xs) = 0 then None
        else Some (count_where l (\<lambda>f h. f = p) (results xs)))"
proof (induction xs rule: rev_induct)
  case Nil
  then show ?case
    by (simp add: init_state_def results_Nil total_for_def count_where_def row_sum_def entry_def)
next
  case (snoc x xs)
  let ?m = "conf_mat_flat (foldl process_sample init_state xs)"
  from snoc have ih1: "row_sum ?m l = total_for l (results xs)"
    and ih2: "(map_of ?m l \<noteq> None) = (0 < total_for l (results xs))"
    and ih3: "entry ?m l p =
       (if count_where l (\<lambda>f h. f = p) (results xs) = 0 then None
        else Some (count_where l (\<lambda>f h. f = p) (results xs)))"
    by blast+
  show ?case
  proof (cases "sample_result x")
    case None
    then show ?thesis using ih1 ih2 ih3 by (simp add: conf_flat_process results_snoc)
  next
    case (Some r)
    obtain t f h where r: "r = (t, f, h)" by (cases r) auto
    have m: "conf_mat_flat (foldl process_sample init_state (xs @ [x])) = bump ?m t f"
      using Some r by (simp add: conf_flat_process)
    have rs: "results (xs @ [x]) = results xs @ [(t, f, h)]"
      using Some r by (simp add: results_snoc)
    have a: "row_sum (bump ?m t f) l = total_for l (results xs @ [(t, f, h)])"
      using ih1 by (simp add: row_sum_bump total_for_snoc)
    have b: "(map_of (bump ?m t f) l \<noteq> None) = (0 < total_for l (results xs @ [(t, f, h)]))"
      using ih2 by (simp add: row_present_bump total_for_snoc del: not_None_eq)
    have c: "entry (bump ?m t f) l p =
       (if count_where l (\<lambda>f h. f = p) (results xs @ [(t, f, h)]) = 0 then None
        else Some (count_where l (\<lambda>f h. f = p) (results xs @ [(t, f, h)])))"
    proof (cases "l = t \<and> p = f")
      case True
      then show ?thesis using ih3 by (simp add: entry_bump count_where_snoc)
    next
      case False
      then show ?thesis using ih3 by (auto simp: entry_bump count_where_snoc)
    qed
    show ?thesis unfolding m rs using a b c by blast
  qed
qed

lemma conf_hier_foldl:
  "row_sum (conf_mat_hier (foldl process_sample init_state xs)) l = total_for l (results xs)
   \<and> (map_of (conf_mat_hier (foldl process_sample init_state xs)) l \<noteq> None)
       = (0 < total_for l (results xs))
   \<and> entry (conf_mat_hier (foldl process_sample init_state xs)) l p =
       (if count_where l (\<lambda>f h. h = p) (results xs) = 0 then None
        else Some (count_where l (\<lambda>f h. h = p) (results xs)))"
proof (induction xs rule: rev_induct)
  case Nil
  then show ?case
    by (simp add: init_state_def results_Nil total_for_def count_where_def row_sum_def entry_def)
next
  case (snoc x xs)
  let ?m = "conf_mat_hier (foldl process_sample init_state xs)"
  from snoc have ih1: "row_sum ?m l = total_for l (results xs)"
    and ih2: "(map_of ?m l \<noteq> None) = (0 < total_for l (results xs))"
    and ih3: "entry ?m l p =
       (if count_where l (\<lambda>f h. h = p) (results xs) = 0 then None
        else Some (count_where l (\<lambda>f h. h = p) (results xs)))"
    by blast+
  show ?case
  proof (cases "sample_result x")
    case None
    then show ?thesis using ih1 ih2 ih3 by (simp add: conf_hier_process results_snoc)
  next
    case (Some r)
    obtain t f h where r: "r = (t, f, h)" by (cases r) auto
    have m: "conf_mat_hier (foldl process_sample init_state (xs @ [x])) = bump ?m t h"
      using Some r by (simp add: conf_hier_process)
    have rs: "results (xs @ [x]) = results xs @ [(t, f, h)]"
      using Some r by (simp add: results_snoc)
    have a: "row_sum (bump ?m t h) l = total_for l (results xs @ [(t, f, h)])"
      using ih1 by (simp add: row_sum_bump total_for_snoc)
    have b: "(map_of (bump ?m t h) l \<noteq> None) = (0 < total_for l (results xs @ [(t, f, h)]))"
      using ih2 by (simp add: row_present_bump total_for_snoc del: not_None_eq)
    have c: "entry (bump ?m t h) l p =
       (if count_where l (\<lambda>f h. h = p) (results xs @ [(t, f, h)]) = 0 then None
        else Some (count_where l (\<lambda>f h. h = p) (results xs @ [(t, f, h)])))"
    proof (cases "l = t \<and> p = h")
      case True
      then show ?thesis using ih3 by (simp add: entry_bump count_where_snoc)
    next
      case False
      then show ?thesis using ih3 by (auto simp: entry_bump count_where_snoc)
    qed
    show ?thesis unfolding m rs using a b c by blast
  qed
qed

text \<open>
  C4: in the artifact the row of a true label in \<open>confusion_flat\<close>, and likewise in
  \<open>confusion_hier\<close>, sums to the number of processed samples with that true label; the
  row exists exactly when there is such a sample; an entry exists exactly when its pair of
  true and predicted label occurred, and holds the number of occurrences; \<open>bump\<close> adds
  one to its entry, starting a new entry at 1, and leaves every other entry as it is.
\<close>

theorem confusion_row_sums:
  "\<exists>art. run_eval rng Constructed limit src = Some art
     \<and> (\<forall>l. row_sum (confusion_flat art) l = total_for l (results (consumed limit src))
           \<and> row_sum (confusion_hier art) l = total_for l (results (consumed limit src))
           \<and> (map_of (confusion_flat art) l \<noteq> None)
               = (0 < total_for l (results (consumed limit src)))
           \<and> (map_of (confusion_hier art) l \<noteq> None)
               = (0 < total_for l (results (consumed limit src))))
     \<and> (\<forall>l p. entry (confusion_flat art) l p =
           (if count_where l (\<lambda>f h. f = p) (results (consumed limit src)) = 0 then None
            else Some (count_where l (\<lambda>f h. f = p) (results (consumed limit src))))
         \<and> entry (confusion_hier art) l p =
           (if count_where l (\<lambda>f h. h = p) (results (consumed limit src)) = 0 then None
            else Some (count_where l (\<lambda>f h. h = p) (results (consumed limit src)))))
     \<and> (\<forall>mat y yhat a b. entry (bump mat y yhat) a b =
           (if a = y \<and> b = yhat then Some (case entry mat y yhat of None \<Rightarrow> 1 | Some c \<Rightarrow> Suc c)
            else entry mat a b))"
proof -
  obtain art where art: "run_eval rng Constructed limit src = Some art"
    and cf: "confusion_flat art = conf_mat_flat (foldl process_sample init_state (consumed limit src))"
    and ch: "confusion_hier art = conf_mat_hier (foldl process_sample init_state (consumed limit src))"
    using run_eval_Some [of rng limit src] by blast
  have bumps: "\<forall>mat y yhat a b. entry (bump mat y yhat) a b =
           (if a = y \<and> b = yhat then Some (case entry mat y yhat of None \<Rightarrow> 1 | Some c \<Rightarrow> Suc c)
            else entry mat a b)"
    using entry_bump by blast
  show ?thesis
    using art bumps conf_flat_foldl [of "consumed limit src"] conf_hier_foldl [of "consumed limit src"]
    unfolding cf [symmetric] ch [symmetric] by blast
qed

section \<open>Missing and malformed metadata\<close>

lemma get_lat_convertible: "convertible field \<Longrightarrow> \<exists>x. get_lat field = Inr x"
proof (cases field)
  case None
  then show ?thesis by (simp add: get_lat_def)
next
  case (Some v)
  assume "convertible field"
  then show ?thesis using Some by (cases v) (simp_all add: get_lat_def)
qed

lemma get_lat_not_convertible:
  "\<not> convertible field \<Longrightarrow> get_lat field = Inl TypeError \<or> get_lat field = Inl OverflowError"
proof (cases field)
  case None
  assume "\<not> convertible field"
  then show ?thesis using None by simp
next
  case (Some v)
  assume "\<not> convertible field"
  then show ?thesis using Some by (cases v) (simp_all add: get_lat_def)
qed

lemma try_body_convertible:
  assumes "outcome s = Returns yhat_h m"
    and "convertible (lat_base_ms m)" and "convertible (lat_total_ms m)"
  shows "\<exists>lf lh. get_lat (lat_base_ms m) = Inr lf \<and> get_lat (lat_total_ms m) = Inr lh
     \<and> try_body s st =
         (st\<lparr>lat_flat := lat_flat st @ [lf], lat_hier := lat_hier st @ [lh],
             per_class := upsert (true_label s) new_tally
               (tally_wins (true_label s) (get_base_pred m yhat_h) yhat_h) (per_class st),
             conf_mat_flat := bump (conf_mat_flat st) (true_label s) (get_base_pred m yhat_h),
             conf_mat_hier := bump (conf_mat_hier st) (true_label s) yhat_h\<rparr>, None)"
proof -
  obtain lf where lf: "get_lat (lat_base_ms m) = Inr lf"
    using get_lat_convertible [OF assms(2)] by blast
  obtain lh where lh: "get_lat (lat_total_ms m) = Inr lh"
    using get_lat_convertible [OF assms(3)] by blast
  show ?thesis using assms(1) lf lh by (simp add: try_body_def Let_def)
qed

lemma try_body_not_convertible:
  assumes "outcome s = Returns yhat_h m"
    and "\<not> convertible (lat_base_ms m) \<or> \<not> convertible (lat_total_ms m)"
  shows "(snd (try_body s st) = Some TypeError \<or> snd (try_body s st) = Some OverflowError)
     \<and> per_class (fst (try_body s st)) = per_class st
     \<and> conf_mat_flat (fst (try_body s st)) = conf_mat_flat st
     \<and> conf_mat_hier (fst (try_body s st)) = conf_mat_hier st
     \<and> lat_hier (fst (try_body s st)) = lat_hier st"
proof (cases "convertible (lat_base_ms m)")
  case False
  then show ?thesis using assms(1) get_lat_not_convertible [of "lat_base_ms m"]
    by (auto simp: try_body_def)
next
  case True
  then have t: "\<not> convertible (lat_total_ms m)" using assms(2) by simp
  obtain lf where lf: "get_lat (lat_base_ms m) = Inr lf"
    using get_lat_convertible [OF True] by blast
  show ?thesis using assms(1) lf get_lat_not_convertible [OF t]
    by (auto simp: try_body_def)
qed

text \<open>
  C7, as the code has it: an absent key takes its default (\<open>used_specialized\<close> False, the
  flat prediction equal to the hierarchical one, a latency 0.0). When each latency is
  absent or a value that \<^verbatim>\<open>float\<close> converts (a bool, a float, an int inside the range of a
  double) the \<^verbatim>\<open>try\<close> body does not raise and records the sample in the latency lists,
  the tally and both matrices. A latency that is present but not convertible is not
  replaced by zero: \<^verbatim>\<open>float\<close> raises \<^verbatim>\<open>TypeError\<close> on \<^verbatim>\<open>None\<close> and
  \<^verbatim>\<open>OverflowError\<close> on an int beyond the range, and the sample reaches neither the tally
  nor the matrices. In every case the sample is counted in \<open>n\<close>.
\<close>

theorem missing_keys_default:
  "(used_specialized m = None \<longrightarrow> get_used_spec m = False)
   \<and> (base_pred m = None \<longrightarrow> get_base_pred m yhat_h = yhat_h)
   \<and> (lat_base_ms m = None \<longrightarrow> get_lat (lat_base_ms m) = Inr 0)
   \<and> (lat_total_ms m = None \<longrightarrow> get_lat (lat_total_ms m) = Inr 0)
   \<and> (outcome s = Returns yhat_h m \<and> convertible (lat_base_ms m) \<and> convertible (lat_total_ms m) \<longrightarrow>
        (\<exists>lf lh. get_lat (lat_base_ms m) = Inr lf \<and> get_lat (lat_total_ms m) = Inr lh
           \<and> try_body s st =
               (st\<lparr>lat_flat := lat_flat st @ [lf], lat_hier := lat_hier st @ [lh],
                   per_class := upsert (true_label s) new_tally
                     (tally_wins (true_label s) (get_base_pred m yhat_h) yhat_h) (per_class st),
                   conf_mat_flat := bump (conf_mat_flat st) (true_label s) (get_base_pred m yhat_h),
                   conf_mat_hier := bump (conf_mat_hier st) (true_label s) yhat_h\<rparr>, None)))
   \<and> (outcome s = Returns yhat_h m
        \<and> (\<not> convertible (lat_base_ms m) \<or> \<not> convertible (lat_total_ms m)) \<longrightarrow>
        (snd (try_body s st) = Some TypeError \<or> snd (try_body s st) = Some OverflowError)
        \<and> per_class (fst (try_body s st)) = per_class st
        \<and> conf_mat_flat (fst (try_body s st)) = conf_mat_flat st
        \<and> conf_mat_hier (fst (try_body s st)) = conf_mat_hier st
        \<and> lat_hier (fst (try_body s st)) = lat_hier st)
   \<and> get_lat (Some PyNone) = Inl TypeError
   \<and> (\<forall>i. 2 ^ 1024 - 2 ^ 970 \<le> \<bar>i\<bar> \<longrightarrow> get_lat (Some (PyInt i)) = Inl OverflowError)
   \<and> n_samples (process_sample st s) = n_samples st + 1"
proof -
  have a: "used_specialized m = None \<longrightarrow> get_used_spec m = False"
    by (simp add: get_used_spec_def)
  have b: "base_pred m = None \<longrightarrow> get_base_pred m yhat_h = yhat_h"
    by (simp add: get_base_pred_def)
  have c: "lat_base_ms m = None \<longrightarrow> get_lat (lat_base_ms m) = Inr 0"
    by (simp add: get_lat_def)
  have d: "lat_total_ms m = None \<longrightarrow> get_lat (lat_total_ms m) = Inr 0"
    by (simp add: get_lat_def)
  have e: "get_lat (Some PyNone) = Inl TypeError"
    by (simp add: get_lat_def)
  have f: "\<forall>i. 2 ^ 1024 - 2 ^ 970 \<le> \<bar>i\<bar> \<longrightarrow> get_lat (Some (PyInt i)) = Inl OverflowError"
    by (simp add: get_lat_def)
  show ?thesis
    using a b c d e f try_body_convertible [of s yhat_h m st]
      try_body_not_convertible [of s yhat_h m st] n_process_sample [of st s]
    by blast
qed

theorem missing_keys_default_witness:
  "outcome (bare ''BPSK'' ''QPSK'') =
       Returns ''QPSK'' \<lparr>used_specialized = None, base_pred = None,
         lat_base_ms = None, lat_total_ms = None\<rparr>
   \<and> try_body (bare ''BPSK'' ''QPSK'') init_state =
       (init_state\<lparr>lat_flat := [0], lat_hier := [0],
          per_class := [(''BPSK'', new_tally)],
          conf_mat_flat := [(''BPSK'', [(''QPSK'', 1)])],
          conf_mat_hier := [(''BPSK'', [(''QPSK'', 1)])]\<rparr>, None)
   \<and> n_samples (process_sample init_state (bare ''BPSK'' ''QPSK'')) = 1
   \<and> snd (try_body (oversized ''BPSK'' ''QPSK'') init_state) = Some OverflowError
   \<and> per_class (fst (try_body (oversized ''BPSK'' ''QPSK'') init_state)) = []"
proof -
  let ?m = "\<lparr>used_specialized = None, base_pred = None,
         lat_base_ms = None, lat_total_ms = (None :: pyval option)\<rparr>"
  have o: "outcome (bare ''BPSK'' ''QPSK'') = Returns ''QPSK'' ?m"
    by (simp add: bare_def)
  have k: "used_specialized ?m = None" "base_pred ?m = None" "lat_base_ms ?m = None"
    "lat_total_ms ?m = None" "convertible (lat_base_ms ?m)" "convertible (lat_total_ms ?m)"
    by simp_all
  note main = missing_keys_default [of ?m "''QPSK''" "bare ''BPSK'' ''QPSK''" init_state]
  have p: "get_base_pred ?m ''QPSK'' = ''QPSK''" using main k by blast
  have l1: "get_lat (lat_base_ms ?m) = Inr 0" using main k by blast
  have l2: "get_lat (lat_total_ms ?m) = Inr 0" using main k by blast
  have "\<exists>lf lh. get_lat (lat_base_ms ?m) = Inr lf \<and> get_lat (lat_total_ms ?m) = Inr lh
           \<and> try_body (bare ''BPSK'' ''QPSK'') init_state =
               (init_state\<lparr>lat_flat := lat_flat init_state @ [lf],
                   lat_hier := lat_hier init_state @ [lh],
                   per_class := upsert (true_label (bare ''BPSK'' ''QPSK'')) new_tally
                     (tally_wins (true_label (bare ''BPSK'' ''QPSK'')) (get_base_pred ?m ''QPSK'') ''QPSK'')
                     (per_class init_state),
                   conf_mat_flat := bump (conf_mat_flat init_state)
                     (true_label (bare ''BPSK'' ''QPSK'')) (get_base_pred ?m ''QPSK''),
                   conf_mat_hier := bump (conf_mat_hier init_state)
                     (true_label (bare ''BPSK'' ''QPSK'')) ''QPSK''\<rparr>, None)"
    using main o k by blast
  then have t: "try_body (bare ''BPSK'' ''QPSK'') init_state =
       (init_state\<lparr>lat_flat := [0], lat_hier := [0],
          per_class := [(''BPSK'', new_tally)],
          conf_mat_flat := [(''BPSK'', [(''QPSK'', 1)])],
          conf_mat_hier := [(''BPSK'', [(''QPSK'', 1)])]\<rparr>, None)"
    unfolding p using l1 l2
    by (auto simp: init_state_def bare_def bump_def tally_wins_def new_tally_def)
  have n: "n_samples (process_sample init_state (bare ''BPSK'' ''QPSK'')) = 1"
    using main by (simp add: init_state_def)
  let ?b = "\<lparr>used_specialized = None, base_pred = None,
         lat_base_ms = Some (PyInt (10 ^ 309)), lat_total_ms = (None :: pyval option)\<rparr>"
  have ob: "outcome (oversized ''BPSK'' ''QPSK'') = Returns ''QPSK'' ?b"
    by (simp add: oversized_def)
  have nb: "\<not> convertible (lat_base_ms ?b)" by simp
  note big = missing_keys_default [of ?b "''QPSK''" "oversized ''BPSK'' ''QPSK''" init_state]
  have r: "(snd (try_body (oversized ''BPSK'' ''QPSK'') init_state) = Some TypeError
        \<or> snd (try_body (oversized ''BPSK'' ''QPSK'') init_state) = Some OverflowError)
      \<and> per_class (fst (try_body (oversized ''BPSK'' ''QPSK'') init_state)) = per_class init_state"
    using big ob nb by blast
  have nt: "snd (try_body (oversized ''BPSK'' ''QPSK'') init_state) \<noteq> Some TypeError"
    by (simp add: try_body_def oversized_def get_lat_def)
  have ov: "snd (try_body (oversized ''BPSK'' ''QPSK'') init_state) = Some OverflowError"
    using r nt by blast
  have pc: "per_class (fst (try_body (oversized ''BPSK'' ''QPSK'') init_state)) = []"
    using r by (simp add: init_state_def)
  show ?thesis using o t n ov pc by blast
qed

text \<open>
  The claim that a malformed latency defaults to zero rather than raising fails for
  \<^verbatim>\<open>lat_base_ms = None\<close>: the body ends with \<^verbatim>\<open>TypeError\<close>, no latency is recorded
  and the sample is not tallied.
\<close>

theorem malformed_latency_counterexample:
  "try_body (malformed ''BPSK'' ''BPSK'') init_state = (init_state, Some TypeError)
   \<and> process_sample init_state (malformed ''BPSK'' ''BPSK'') =
       init_state\<lparr>n_samples := 1, log := [(1, TypeError)]\<rparr>
   \<and> lat_flat (process_sample init_state (malformed ''BPSK'' ''BPSK'')) = []
   \<and> per_class (process_sample init_state (malformed ''BPSK'' ''BPSK'')) = []"
  by (simp add: try_body_def process_sample_def malformed_def get_lat_def init_state_def)

section \<open>Latency percentiles\<close>

lemma interp_bounds:
  fixes s :: "real list" and v :: real
  assumes srt: "sorted s" and ne: "s \<noteq> []" and v0: "0 \<le> v" and v1: "v \<le> real (length s - 1)"
  shows "nat \<lfloor>v\<rfloor> \<le> length s - 1"
    and "s ! nat \<lfloor>v\<rfloor> \<le> s ! nat \<lfloor>v\<rfloor>
          + (s ! min (nat \<lfloor>v\<rfloor> + 1) (length s - 1) - s ! nat \<lfloor>v\<rfloor>) * (v - real (nat \<lfloor>v\<rfloor>))"
    and "s ! nat \<lfloor>v\<rfloor>
          + (s ! min (nat \<lfloor>v\<rfloor> + 1) (length s - 1) - s ! nat \<lfloor>v\<rfloor>) * (v - real (nat \<lfloor>v\<rfloor>))
         \<le> s ! min (nat \<lfloor>v\<rfloor> + 1) (length s - 1)"
proof -
  define lo where "lo = nat \<lfloor>v\<rfloor>"
  define hi where "hi = min (lo + 1) (length s - 1)"
  define g where "g = v - real lo"
  have fl: "0 \<le> \<lfloor>v\<rfloor>" using v0 by simp
  have lo_le: "real lo \<le> v" unfolding lo_def using fl by simp
  have lo_gt: "v < real lo + 1" unfolding lo_def using fl by simp
  have g0: "0 \<le> g" and g1: "g \<le> 1" unfolding g_def using lo_le lo_gt by auto
  have "real lo \<le> real (length s - 1)" using lo_le v1 by linarith
  then show lo_n: "nat \<lfloor>v\<rfloor> \<le> length s - 1" unfolding lo_def by simp
  have len: "0 < length s" using ne by simp
  have lohi: "lo \<le> hi" unfolding hi_def using lo_n lo_def by simp
  have hin: "hi < length s" unfolding hi_def using ne by (cases s) auto
  have d: "s ! lo \<le> s ! hi" using srt lohi hin by (rule sorted_nth_mono)
  have "0 \<le> (s ! hi - s ! lo) * g" using d g0 by simp
  then show "s ! nat \<lfloor>v\<rfloor> \<le> s ! nat \<lfloor>v\<rfloor>
          + (s ! min (nat \<lfloor>v\<rfloor> + 1) (length s - 1) - s ! nat \<lfloor>v\<rfloor>) * (v - real (nat \<lfloor>v\<rfloor>))"
    unfolding hi_def g_def lo_def by simp
  have "(s ! hi - s ! lo) * g \<le> (s ! hi - s ! lo) * 1"
    using d g1 by (intro mult_left_mono) auto
  then show "s ! nat \<lfloor>v\<rfloor>
          + (s ! min (nat \<lfloor>v\<rfloor> + 1) (length s - 1) - s ! nat \<lfloor>v\<rfloor>) * (v - real (nat \<lfloor>v\<rfloor>))
         \<le> s ! min (nat \<lfloor>v\<rfloor> + 1) (length s - 1)"
    unfolding hi_def g_def lo_def by simp
qed

lemma interp_mono:
  fixes s :: "real list" and v w :: real
  assumes srt: "sorted s" and ne: "s \<noteq> []" and v0: "0 \<le> v" and vw: "v \<le> w"
    and w1: "w \<le> real (length s - 1)"
  shows "s ! nat \<lfloor>v\<rfloor>
          + (s ! min (nat \<lfloor>v\<rfloor> + 1) (length s - 1) - s ! nat \<lfloor>v\<rfloor>) * (v - real (nat \<lfloor>v\<rfloor>))
       \<le> s ! nat \<lfloor>w\<rfloor>
          + (s ! min (nat \<lfloor>w\<rfloor> + 1) (length s - 1) - s ! nat \<lfloor>w\<rfloor>) * (w - real (nat \<lfloor>w\<rfloor>))"
proof -
  have w0: "0 \<le> w" using v0 vw by simp
  have v1: "v \<le> real (length s - 1)" using vw w1 by simp
  have flo: "nat \<lfloor>v\<rfloor> \<le> nat \<lfloor>w\<rfloor>" using vw by (simp add: floor_mono nat_mono)
  show ?thesis
  proof (cases "nat \<lfloor>v\<rfloor> = nat \<lfloor>w\<rfloor>")
    case True
    have "nat \<lfloor>w\<rfloor> \<le> min (nat \<lfloor>w\<rfloor> + 1) (length s - 1)"
      using interp_bounds(1) [OF srt ne w0 w1] by simp
    moreover have "min (nat \<lfloor>w\<rfloor> + 1) (length s - 1) < length s"
      using ne by (cases s) auto
    ultimately have d: "s ! nat \<lfloor>w\<rfloor> \<le> s ! min (nat \<lfloor>w\<rfloor> + 1) (length s - 1)"
      using srt by (intro sorted_nth_mono)
    have "(s ! min (nat \<lfloor>w\<rfloor> + 1) (length s - 1) - s ! nat \<lfloor>w\<rfloor>) * (v - real (nat \<lfloor>w\<rfloor>))
        \<le> (s ! min (nat \<lfloor>w\<rfloor> + 1) (length s - 1) - s ! nat \<lfloor>w\<rfloor>) * (w - real (nat \<lfloor>w\<rfloor>))"
      using d vw by (intro mult_left_mono) auto
    then show ?thesis unfolding True by simp
  next
    case False
    then have lt: "nat \<lfloor>v\<rfloor> + 1 \<le> nat \<lfloor>w\<rfloor>" using flo by simp
    have wn: "nat \<lfloor>w\<rfloor> < length s"
      using interp_bounds(1) [OF srt ne w0 w1] ne by (cases s) auto
    have "min (nat \<lfloor>v\<rfloor> + 1) (length s - 1) \<le> nat \<lfloor>w\<rfloor>" using lt by simp
    then have mid: "s ! min (nat \<lfloor>v\<rfloor> + 1) (length s - 1) \<le> s ! nat \<lfloor>w\<rfloor>"
      using srt wn by (intro sorted_nth_mono)
    show ?thesis
      using interp_bounds(3) [OF srt ne v0 v1] mid interp_bounds(2) [OF srt ne w0 w1]
      by linarith
  qed
qed

lemma np_percentile_mono:
  assumes ne: "lat \<noteq> []" and q0: "0 \<le> q" and qr: "q \<le> r" and r1: "r \<le> 100"
  shows "\<exists>a b. np_percentile lat q = Some a \<and> np_percentile lat r = Some b \<and> a \<le> b"
proof -
  let ?s = "sort lat"
  have sne: "?s \<noteq> []" using ne by (metis length_0_conv length_sort)
  have len: "length ?s = length lat" by simp
  have n0: "0 \<le> real (length ?s - 1)" by simp
  have a: "0 \<le> real (length ?s - 1) * q / 100" using q0 by simp
  have b: "real (length ?s - 1) * q / 100 \<le> real (length ?s - 1) * r / 100"
    using qr n0 by (simp add: mult_left_mono divide_right_mono)
  have "real (length ?s - 1) * r \<le> real (length ?s - 1) * 100"
    using r1 n0 by (intro mult_left_mono) auto
  then have c: "real (length ?s - 1) * r / 100 \<le> real (length ?s - 1)" by simp
  have m: "?s ! nat \<lfloor>real (length ?s - 1) * q / 100\<rfloor>
          + (?s ! min (nat \<lfloor>real (length ?s - 1) * q / 100\<rfloor> + 1) (length ?s - 1)
               - ?s ! nat \<lfloor>real (length ?s - 1) * q / 100\<rfloor>)
            * (real (length ?s - 1) * q / 100 - real (nat \<lfloor>real (length ?s - 1) * q / 100\<rfloor>))
       \<le> ?s ! nat \<lfloor>real (length ?s - 1) * r / 100\<rfloor>
          + (?s ! min (nat \<lfloor>real (length ?s - 1) * r / 100\<rfloor> + 1) (length ?s - 1)
               - ?s ! nat \<lfloor>real (length ?s - 1) * r / 100\<rfloor>)
            * (real (length ?s - 1) * r / 100 - real (nat \<lfloor>real (length ?s - 1) * r / 100\<rfloor>))"
    by (rule interp_mono [OF sorted_sort sne a b c])
  have q1: "\<not> 100 < q" "\<not> q < 0" "\<not> r < 0" "\<not> 100 < r" using q0 qr r1 by auto
  show ?thesis using m ne q1
    by (simp add: np_percentile_def Let_def del: length_sort)
qed

lemma artifact_latency:
  "\<exists>art. run_eval rng Constructed limit src = Some art
     \<and> pct_or_zero (lat_flat (eval_loop limit src init_state)) 50 = Some (p50 (latency_flat art))
     \<and> pct_or_zero (lat_flat (eval_loop limit src init_state)) 95 = Some (p95 (latency_flat art))
     \<and> pct_or_zero (lat_hier (eval_loop limit src init_state)) 50 = Some (p50 (latency_hier art))
     \<and> pct_or_zero (lat_hier (eval_loop limit src init_state)) 95 = Some (p95 (latency_hier art))"
  using finalize_Some [of "eval_loop limit src init_state"]
  by (auto simp: run_eval_def)

lemma pct_or_zero_mono: "\<exists>a b. pct_or_zero lat 50 = Some a \<and> pct_or_zero lat 95 = Some b \<and> a \<le> b"
proof (cases "lat = []")
  case True
  then show ?thesis by (simp add: pct_or_zero_def)
next
  case False
  then show ?thesis using np_percentile_mono [of lat 50 95] by (simp add: pct_or_zero_def)
qed

lemma np_percentile_3_1: "np_percentile [3, 1] 50 = Some 2 \<and> np_percentile [3, 1] 95 = Some (29 / 10)"
  by (simp add: np_percentile_def Let_def)

text \<open>
  C9: for every non-empty list of latencies the linear-interpolation 95th percentile is
  at least the 50th (the list need not be non-constant), and so in every artifact of the
  evaluation loop \<open>p95\<close> is at least \<open>p50\<close> for the flat and for the hierarchical variant.
\<close>

theorem percentiles_monotone:
  "(lat \<noteq> [] \<longrightarrow>
      (\<exists>a b. np_percentile lat 50 = Some a \<and> np_percentile lat 95 = Some b \<and> a \<le> b))
   \<and> (\<exists>art. run_eval rng Constructed limit src = Some art
         \<and> p50 (latency_flat art) \<le> p95 (latency_flat art)
         \<and> p50 (latency_hier art) \<le> p95 (latency_hier art))"
proof -
  have a: "\<exists>a b. np_percentile lat 50 = Some a \<and> np_percentile lat 95 = Some b \<and> a \<le> b"
    if "lat \<noteq> []"
    using np_percentile_mono [of lat 50 95] that by simp
  obtain art where art: "run_eval rng Constructed limit src = Some art"
     and f50: "pct_or_zero (lat_flat (eval_loop limit src init_state)) 50 = Some (p50 (latency_flat art))"
     and f95: "pct_or_zero (lat_flat (eval_loop limit src init_state)) 95 = Some (p95 (latency_flat art))"
     and h50: "pct_or_zero (lat_hier (eval_loop limit src init_state)) 50 = Some (p50 (latency_hier art))"
     and h95: "pct_or_zero (lat_hier (eval_loop limit src init_state)) 95 = Some (p95 (latency_hier art))"
    using artifact_latency [of rng limit src] by blast
  have f: "p50 (latency_flat art) \<le> p95 (latency_flat art)"
    using pct_or_zero_mono [of "lat_flat (eval_loop limit src init_state)"] f50 f95 by auto
  have h: "p50 (latency_hier art) \<le> p95 (latency_hier art)"
    using pct_or_zero_mono [of "lat_hier (eval_loop limit src init_state)"] h50 h95 by auto
  show ?thesis using a art f h by blast
qed

theorem percentiles_monotone_witness:
  "[3, 1 :: real] \<noteq> []
   \<and> (\<exists>a b. np_percentile [3, 1] 50 = Some a \<and> np_percentile [3, 1] 95 = Some b \<and> a \<le> b)
   \<and> np_percentile [3, 1] 50 = Some 2 \<and> np_percentile [3, 1] 95 = Some (29 / 10)"
proof -
  have ne: "[3, 1 :: real] \<noteq> []" by simp
  have "\<exists>a b. np_percentile [3, 1] 50 = Some a \<and> np_percentile [3, 1] 95 = Some b \<and> a \<le> b"
    using percentiles_monotone [of "[3, 1]" fixed_draws 0 "[]"] ne by blast
  then show ?thesis using ne np_percentile_3_1 by blast
qed

section \<open>The SNR table\<close>

lemma snr_keys_all2: "snr_keys rs = Inr ks \<Longrightarrow> list_all2 (\<lambda>r k. snr_key r = Inr k) rs ks"
proof (induction rs arbitrary: ks)
  case Nil
  then show ?case by simp
next
  case (Cons r rs)
  then show ?case by (auto split: sum.splits)
qed

lemma snr_keys_present:
  "\<forall>r\<in>set rs. rec_snr_db r \<noteq> None \<Longrightarrow> \<exists>ks. snr_keys rs = Inr ks"
  by (induction rs) (auto simp: snr_key_def split: option.splits)

lemma snr_keys_missing:
  "\<exists>r\<in>set rs. rec_snr_db r = None \<Longrightarrow> snr_keys rs = Inl KeyError"
proof (induction rs)
  case Nil
  then show ?case by simp
next
  case (Cons r rs)
  show ?case
  proof (cases "rec_snr_db r")
    case None
    then show ?thesis by (simp add: snr_key_def)
  next
    case (Some x)
    then have "\<exists>r\<in>set rs. rec_snr_db r = None" using Cons.prems by auto
    then have "snr_keys rs = Inl KeyError" by (rule Cons.IH)
    then show ?thesis using Some by (simp add: snr_key_def)
  qed
qed

lemma all2_keys_set:
  "list_all2 (\<lambda>r k. snr_key r = Inr k) rs ks \<Longrightarrow> set ks = {k. \<exists>r\<in>set rs. snr_key r = Inr k}"
  by (induction rule: list_all2_induct) auto

lemma all2_count:
  "list_all2 (\<lambda>r k. snr_key r = Inr k) rs ks \<Longrightarrow>
   sum_list (map (\<lambda>(k', r). of_bool (P r)) (filter (\<lambda>(k', r). k' = k) (zip ks rs)))
     = length (filter (\<lambda>r. snr_key r = Inr k \<and> P r) rs)"
  by (induction rule: list_all2_induct) auto

lemma all2_total:
  "list_all2 (\<lambda>r k. snr_key r = Inr k) rs ks \<Longrightarrow>
   sum_list (map (\<lambda>(k', r). Suc 0) (filter (\<lambda>(k', r). k' = k) (zip ks rs)))
     = length (filter (\<lambda>r. snr_key r = Inr k) rs)"
  by (induction rule: list_all2_induct) auto

lemma snr_mk_bucket: "map snr (map (mk_bucket krs) ks) = ks"
  by (induction ks) (auto simp: mk_bucket_def Let_def)

lemma py_round_nearest: "\<bar>x - of_int (py_round x)\<bar> \<le> 1 / 2"
proof -
  have "of_int \<lfloor>x\<rfloor> \<le> x" and "x < of_int \<lfloor>x\<rfloor> + 1" by linarith+
  then show ?thesis by (auto simp: py_round_def Let_def)
qed

lemma snr_table_Some:
  assumes "\<forall>r\<in>set rs. rec_snr_db r \<noteq> None"
  shows "\<exists>tbl. snr_table (Some rs) = Inr tbl
     \<and> sorted (map snr tbl) \<and> distinct (map snr tbl)
     \<and> set (map snr tbl) = {k. \<exists>r\<in>set rs. snr_key r = Inr k}
     \<and> (\<forall>b\<in>set tbl.
           adv b = int (b_hier_wins b) - int (b_flat_wins b)
         \<and> b_hier_wins b = length (filter (\<lambda>r. snr_key r = Inr (snr b)
               \<and> rec_hier_correct r \<and> \<not> rec_flat_correct r) rs)
         \<and> b_flat_wins b = length (filter (\<lambda>r. snr_key r = Inr (snr b)
               \<and> rec_flat_correct r \<and> \<not> rec_hier_correct r) rs)
         \<and> b_n b = length (filter (\<lambda>r. snr_key r = Inr (snr b)) rs))"
proof -
  obtain ks where ks: "snr_keys rs = Inr ks"
    using snr_keys_present [OF assms] by blast
  have all2: "list_all2 (\<lambda>r k. snr_key r = Inr k) rs ks"
    using ks by (rule snr_keys_all2)
  define tbl where "tbl = map (mk_bucket (zip ks rs)) (sort (remdups ks))"
  have t: "snr_table (Some rs) = Inr tbl"
  proof (cases rs)
    case Nil
    then show ?thesis using ks by (simp add: snr_table_def tbl_def)
  next
    case (Cons r rs')
    then show ?thesis using ks by (simp add: snr_table_def tbl_def)
  qed
  have keys: "map snr tbl = sort (remdups ks)"
    unfolding tbl_def by (rule snr_mk_bucket)
  have s: "sorted (map snr tbl)" and d: "distinct (map snr tbl)" unfolding keys by simp_all
  have st: "set (map snr tbl) = {k. \<exists>r\<in>set rs. snr_key r = Inr k}"
    unfolding keys using all2_keys_set [OF all2] by simp
  have b: "adv b = int (b_hier_wins b) - int (b_flat_wins b)
         \<and> b_hier_wins b = length (filter (\<lambda>r. snr_key r = Inr (snr b)
               \<and> rec_hier_correct r \<and> \<not> rec_flat_correct r) rs)
         \<and> b_flat_wins b = length (filter (\<lambda>r. snr_key r = Inr (snr b)
               \<and> rec_flat_correct r \<and> \<not> rec_hier_correct r) rs)
         \<and> b_n b = length (filter (\<lambda>r. snr_key r = Inr (snr b)) rs)" if "b \<in> set tbl" for b
  proof -
    have "b \<in> mk_bucket (zip ks rs) ` set (sort (remdups ks))"
      using that unfolding tbl_def set_map .
    then obtain k where k: "b = mk_bucket (zip ks rs) k" by blast
    have sk: "snr b = k" unfolding k by (simp add: mk_bucket_def Let_def)
    show ?thesis unfolding sk unfolding k
      by (simp add: mk_bucket_def Let_def
          all2_count [OF all2, of "\<lambda>r. rec_hier_correct r \<and> \<not> rec_flat_correct r"]
          all2_count [OF all2, of "\<lambda>r. rec_flat_correct r \<and> \<not> rec_hier_correct r"]
          all2_total [OF all2])
  qed
  show ?thesis using t s d st b by blast
qed

lemma py_round_examples: "py_round (5 / 2) = 2 \<and> py_round (- (3 / 2)) = - 2 \<and> py_round (7 / 2) = 4"
  by (simp add: py_round_def Let_def)

lemma snr_table_example:
  "snr_table (Some [rec1, rec2, rec1]) =
     Inr [\<lparr>snr = - 2, b_flat_wins = 1, b_hier_wins = 0, adv = - 1, b_n = 1\<rparr>,
          \<lparr>snr = 2, b_flat_wins = 0, b_hier_wins = 2, adv = 2, b_n = 2\<rparr>]"
  by (simp add: snr_table_def snr_key_def rec1_def rec2_def py_round_examples mk_bucket_def Let_def)

text \<open>
  C6, as the code has it: when every record has \<^verbatim>\<open>snr_db\<close>, the table has one bucket
  for each distinct rounded SNR, in ascending order of the key; a record belongs to the
  bucket of its SNR rounded to the nearest integer; \<open>adv\<close> is \<open>hier_wins - flat_wins\<close>,
  where a hier win is a record with \<open>hier_correct\<close> and not \<open>flat_correct\<close> and a flat
  win one with \<open>flat_correct\<close> and not \<open>hier_correct\<close>. Without a records list, or with
  an empty one, the table is empty. A record without \<^verbatim>\<open>snr_db\<close> is not left out: the
  renderer raises \<^verbatim>\<open>KeyError\<close>.
\<close>

theorem snr_table_buckets:
  "((\<forall>r\<in>set rs. rec_snr_db r \<noteq> None) \<longrightarrow>
      (\<exists>tbl. snr_table (Some rs) = Inr tbl
         \<and> sorted (map snr tbl) \<and> distinct (map snr tbl)
         \<and> set (map snr tbl) = {k. \<exists>r\<in>set rs. snr_key r = Inr k}
         \<and> (\<forall>b\<in>set tbl.
               adv b = int (b_hier_wins b) - int (b_flat_wins b)
             \<and> b_hier_wins b = length (filter (\<lambda>r. snr_key r = Inr (snr b)
                   \<and> rec_hier_correct r \<and> \<not> rec_flat_correct r) rs)
             \<and> b_flat_wins b = length (filter (\<lambda>r. snr_key r = Inr (snr b)
                   \<and> rec_flat_correct r \<and> \<not> rec_hier_correct r) rs)
             \<and> b_n b = length (filter (\<lambda>r. snr_key r = Inr (snr b)) rs))))
   \<and> (rs \<noteq> [] \<and> (\<exists>r\<in>set rs. rec_snr_db r = None) \<longrightarrow> snr_table (Some rs) = Inl KeyError)
   \<and> (\<forall>r x. rec_snr_db r = Some x \<longrightarrow>
         snr_key r = Inr (py_round x) \<and> \<bar>x - of_int (py_round x)\<bar> \<le> 1 / 2)
   \<and> snr_table None = Inr [] \<and> snr_table (Some []) = Inr []"
proof -
  have miss: "snr_table (Some rs) = Inl KeyError"
    if "rs \<noteq> []" and "\<exists>r\<in>set rs. rec_snr_db r = None"
    using that snr_keys_missing [of rs] by (cases rs) (auto simp: snr_table_def)
  have rnd: "\<forall>r x. rec_snr_db r = Some x \<longrightarrow>
         snr_key r = Inr (py_round x) \<and> \<bar>x - of_int (py_round x)\<bar> \<le> 1 / 2"
    using py_round_nearest by (simp add: snr_key_def)
  have e: "snr_table None = Inr []" "snr_table (Some []) = Inr []"
    by (simp_all add: snr_table_def)
  show ?thesis using snr_table_Some [of rs] miss rnd e by blast
qed

theorem snr_table_buckets_witness:
  "rec_snr_db rec1 \<noteq> None \<and> rec_snr_db rec2 \<noteq> None
   \<and> (\<exists>tbl. snr_table (Some [rec1, rec2, rec1]) = Inr tbl \<and> sorted (map snr tbl)
         \<and> tbl = [\<lparr>snr = - 2, b_flat_wins = 1, b_hier_wins = 0, adv = - 1, b_n = 1\<rparr>,
                  \<lparr>snr = 2, b_flat_wins = 0, b_hier_wins = 2, adv = 2, b_n = 2\<rparr>])
   \<and> rec_snr_db rec3 = None \<and> snr_table (Some [rec2, rec3]) = Inl KeyError
   \<and> snr_key rec1 = Inr (py_round (5 / 2)) \<and> py_round (5 / 2) = 2"
proof -
  have p: "rec_snr_db rec1 \<noteq> None" "rec_snr_db rec2 \<noteq> None" "rec_snr_db rec3 = None"
    "rec_snr_db rec1 = Some (5 / 2)"
    by (simp_all add: rec1_def rec2_def rec3_def)
  have all: "\<forall>r\<in>set [rec1, rec2, rec1]. rec_snr_db r \<noteq> None" using p(1) p(2) by simp
  obtain tbl where tbl: "snr_table (Some [rec1, rec2, rec1]) = Inr tbl" "sorted (map snr tbl)"
    using snr_table_buckets [of "[rec1, rec2, rec1]"] all by blast
  have ex: "\<exists>r\<in>set [rec2, rec3]. rec_snr_db r = None" using p(3) by simp
  have none: "snr_table (Some [rec2, rec3]) = Inl KeyError"
    using snr_table_buckets [of "[rec2, rec3]"] ex by blast
  have key: "snr_key rec1 = Inr (py_round (5 / 2))"
    using snr_table_buckets [of "[]"] p(4) by blast
  have teq: "tbl = [\<lparr>snr = - 2, b_flat_wins = 1, b_hier_wins = 0, adv = - 1, b_n = 1\<rparr>,
                  \<lparr>snr = 2, b_flat_wins = 0, b_hier_wins = 2, adv = 2, b_n = 2\<rparr>]"
    using tbl(1) snr_table_example by simp
  have rnd: "py_round (5 / 2) = 2" using py_round_examples by blast
  show ?thesis using p(1) p(2) p(3) tbl teq none key rnd by blast
qed

text \<open>
  The claim that only records carrying an SNR value take part fails on a list with a
  record that has none: no table is made, the subscript raises.
\<close>

theorem snr_table_missing_counterexample:
  "snr_table (Some [rec1, rec3]) = Inl KeyError"
  by (simp add: snr_table_def snr_key_def rec1_def rec3_def)

end
